theory Spec2Isabelle
  imports Main
begin

section \<open>Configuration\<close>

text \<open>The \<^verbatim>\<open>JSONConfig\<close> struct of \<^verbatim>\<open>server.go\<close>. Go's \<^verbatim>\<open>int\<close> is taken
  to be 64 bits wide; the only place where the width matters is \<^verbatim>\<open>strconv.Atoi\<close>.\<close>

record JSONConfig =
  Host :: string
  Port :: int
  InputDir :: string
  OutputDir :: string
  Widths :: "int list"

section \<open>Library functions used by the handler\<close>

subsection \<open>The route pattern\<close>

definition isDigit :: "char \<Rightarrow> bool" where
  "isDigit c = (c \<in> set ''0123456789'')"

text \<open>\<^verbatim>\<open>urlRegex.FindStringSubmatch(reqPath)\<close> for the pattern
  \<^verbatim>\<open>^/(\d+)p/(.+)$\<close>: a slash, a maximal non-empty run of ASCII digits, the letters
  \<^verbatim>\<open>p/\<close>, and a non-empty remainder without a line feed (the dot of Go's regexp does
  not match a line feed, and \<^verbatim>\<open>$\<close> only matches at the end of the text). The result is
  the pair of the two groups, or \<open>None\<close> where Go returns \<^verbatim>\<open>nil\<close>.\<close>

definition FindStringSubmatch :: "string \<Rightarrow> (string \<times> string) option" where
  "FindStringSubmatch reqPath =
     (case reqPath of
        [] \<Rightarrow> None
      | c # rest \<Rightarrow>
          if c \<noteq> CHR ''/'' then None
          else (let ds = takeWhile isDigit rest in
                case dropWhile isDigit rest of
                  p # s # fn \<Rightarrow>
                    if ds \<noteq> [] \<and> p = CHR ''p'' \<and> s = CHR ''/'' \<and> fn \<noteq> []
                       \<and> CHR 0x0A \<notin> set fn
                    then Some (ds, fn) else None
                | _ \<Rightarrow> None))"

subsection \<open>strconv\<close>

datatype numError = ErrSyntax | ErrRange

definition digitVal :: "char \<Rightarrow> nat" where
  "digitVal c = of_char c - 48"

fun digitsVal :: "nat \<Rightarrow> string \<Rightarrow> nat" where
  "digitsVal acc [] = acc"
| "digitsVal acc (c # cs) = digitsVal (acc * 10 + digitVal c) cs"

definition maxInt :: int where
  "maxInt = 9223372036854775807"

definition minInt :: int where
  "minInt = - 9223372036854775808"

text \<open>\<^verbatim>\<open>strconv.Atoi\<close>: an optional sign, then decimal digits; \<^verbatim>\<open>ErrSyntax\<close> on
  anything else, \<^verbatim>\<open>ErrRange\<close> when the value does not fit the 64-bit \<^verbatim>\<open>int\<close>.\<close>

definition Atoi :: "string \<Rightarrow> numError + int" where
  "Atoi s =
     (let neg = (case s of c # _ \<Rightarrow> c = CHR ''-'' | [] \<Rightarrow> False);
          ds = (case s of c # cs \<Rightarrow> if c = CHR ''-'' \<or> c = CHR ''+'' then cs else s
                | [] \<Rightarrow> s)
      in if ds = [] \<or> \<not> list_all isDigit ds then Inl ErrSyntax
         else (let v = int (digitsVal 0 ds); r = (if neg then - v else v)
               in if r < minInt \<or> maxInt < r then Inl ErrRange else Inr r))"

definition digitChar :: "nat \<Rightarrow> char" where
  "digitChar d = ''0123456789'' ! d"

fun natDigits :: "nat \<Rightarrow> string" where
  "natDigits n = (if n < 10 then [digitChar n] else natDigits (n div 10) @ [digitChar (n mod 10)])"

declare natDigits.simps [simp del]

text \<open>\<^verbatim>\<open>strconv.Itoa\<close>, also what \<^verbatim>\<open>%d\<close> of \<^verbatim>\<open>fmt.Sprintf\<close> prints.\<close>

definition Itoa :: "int \<Rightarrow> string" where
  "Itoa i = (if i < 0 then CHR ''-'' # natDigits (nat (- i)) else natDigits (nat i))"

subsection \<open>strings and path\<close>

fun HasPrefix :: "string \<Rightarrow> string \<Rightarrow> bool" where
  "HasPrefix s [] = True"
| "HasPrefix [] (p # ps) = False"
| "HasPrefix (c # cs) (p # ps) = (c = p \<and> HasPrefix cs ps)"

text \<open>\<^verbatim>\<open>strings.Contains(s, substr)\<close>.\<close>

fun Contains :: "string \<Rightarrow> string \<Rightarrow> bool" where
  "Contains [] substr = (substr = [])"
| "Contains (c # cs) substr = (HasPrefix (c # cs) substr \<or> Contains cs substr)"

text \<open>\<^verbatim>\<open>path.IsAbs\<close>: the path begins with a slash.\<close>

definition IsAbs :: "string \<Rightarrow> bool" where
  "IsAbs p = (case p of [] \<Rightarrow> False | c # _ \<Rightarrow> c = CHR ''/'')"

subsection \<open>path/filepath on a Unix system\<close>

text \<open>The path elements between slashes, empty ones included.\<close>

fun splitSlash :: "string \<Rightarrow> string \<Rightarrow> string list" where
  "splitSlash cur [] = [rev cur]"
| "splitSlash cur (c # cs) =
     (if c = CHR ''/'' then rev cur # splitSlash [] cs else splitSlash (c # cur) cs)"

fun joinSlash :: "string list \<Rightarrow> string" where
  "joinSlash [] = []"
| "joinSlash [x] = x"
| "joinSlash (x # y # ys) = x @ CHR ''/'' # joinSlash (y # ys)"

text \<open>The loop of \<^verbatim>\<open>filepath.Clean\<close> over the path elements. \<open>out\<close> is the output so
  far, last element first. An empty element and \<^verbatim>\<open>.\<close> are dropped; \<^verbatim>\<open>..\<close> removes the
  last real element when there is one, is dropped at the root, and is kept otherwise.\<close>

fun cleanElems :: "bool \<Rightarrow> string list \<Rightarrow> string list \<Rightarrow> string list" where
  "cleanElems rooted out [] = rev out"
| "cleanElems rooted out (e # es) =
     (if e = [] \<or> e = ''.'' then cleanElems rooted out es
      else if e = ''..'' then
        (case out of
           [] \<Rightarrow> if rooted then cleanElems rooted out es else cleanElems rooted [''..''] es
         | prev # below \<Rightarrow>
             if prev = ''..'' then cleanElems rooted (''..'' # out) es
             else cleanElems rooted below es)
      else cleanElems rooted (e # out) es)"

text \<open>\<^verbatim>\<open>filepath.Clean\<close>: the shortest path equivalent to the argument by purely
  lexical processing; the empty result is written \<^verbatim>\<open>.\<close>.\<close>

definition Clean :: "string \<Rightarrow> string" where
  "Clean p =
     (let rooted = IsAbs p;
          body = joinSlash (cleanElems rooted [] (splitSlash [] p));
          res = (if rooted then CHR ''/'' # body else body)
      in if res = [] then ''.'' else res)"

text \<open>\<^verbatim>\<open>filepath.Join\<close> of two elements: leading empty elements are ignored, the rest
  is joined with slashes and cleaned; all elements empty gives the empty string.\<close>

definition Join :: "string \<Rightarrow> string \<Rightarrow> string" where
  "Join a b =
     (if a \<noteq> [] then Clean (a @ CHR ''/'' # b)
      else if b \<noteq> [] then Clean b
      else [])"

text \<open>\<^verbatim>\<open>filepath.Dir\<close>: the path without its last element, cleaned.\<close>

definition Dir :: "string \<Rightarrow> string" where
  "Dir p = Clean (rev (dropWhile (\<lambda>c. c \<noteq> CHR ''/'') (rev p)))"

section \<open>The world the handler acts on\<close>

text \<open>Everything outside \<^verbatim>\<open>server.go\<close> is state that the handler's calls read and
  change: the file system, the response writer, the encoder process with its standard
  output pipe, and the request's context. The calls are recorded, in order, in a trace.\<close>

datatype node = Directory | Regular string

datatype errno = NotExist | OtherError

datatype readError = EOF | ReadFailure

text \<open>One arrival on the encoder's standard output: the bytes (\<open>live\<close>), the error the
  read that drains them reports, and the bytes the encoder has appended to its output
  file by then (\<open>disk\<close>).\<close>

record encStep =
  live :: string
  lerr :: "readError option"
  disk :: string

datatype procState = NotStarted | Running | Killed | Reaped

datatype outcome = Completed | Cancelled | WriteError | ReadError

datatype event =
    EvSetHeader string string
  | EvWriteHeader nat
  | EvWrite string bool
  | EvFlush
  | EvOpen string
  | EvClose string
  | EvMkdirAll string
  | EvStat string
  | EvServeFile string
  | EvStdoutPipe
  | EvStart "string list" bool
  | EvCtxDone bool
  | EvRead nat "readError option"
  | EvRemove string
  | EvReaderClose
  | EvKill
  | EvWait
  | EvLog string

text \<open>An \<^verbatim>\<open>http.ResponseWriter\<close>: the header map the handler edits, the status and
  the headers fixed by the first \<^verbatim>\<open>WriteHeader\<close>, the body bytes written, and the file
  handed to \<^verbatim>\<open>http.ServeFile\<close> with what was found there.\<close>

record response =
  header :: "string \<rightharpoonup> string"
  wroteHeader :: bool
  status :: nat
  sentHeader :: "string \<rightharpoonup> string"
  body :: string
  served :: "(string \<times> node option) option"

record world =
  fs :: "string \<rightharpoonup> node"
  rw :: response
  proc :: procState
  outFile :: string
  pipe :: "encStep list"
  aborted :: bool
  trace :: "event list"

text \<open>What the handler cannot decide: which system calls fail, whether the response
  writer is an \<^verbatim>\<open>http.Flusher\<close>, whether the encoder is refused its output file, and
  what it emits. The request's context and the client act while the goroutine runs:
  \<open>cancelAt\<close> is the number of calls (checks of \<^verbatim>\<open>ctx.Done()\<close>, reads, writes and
  flushes) the goroutine has made when \<^verbatim>\<open>ctx.Done()\<close> becomes ready, and
  \<open>writeFaultAt\<close> the number of its calls from which on a write to the client fails.\<close>

record env =
  openFault :: "string \<Rightarrow> bool"
  mkdirFault :: "string \<Rightarrow> bool"
  statFault :: "string \<Rightarrow> bool"
  hasFlusher :: bool
  pipeFault :: bool
  startFault :: bool
  outputFault :: bool
  script :: "encStep list"
  cancelAt :: "nat option"
  writeFaultAt :: "nat option"

definition emit :: "event \<Rightarrow> world \<Rightarrow> world" where
  "emit ev w = w\<lparr>trace := trace w @ [ev]\<rparr>"

subsection \<open>The response writer\<close>

definition Header_Set :: "string \<Rightarrow> string \<Rightarrow> world \<Rightarrow> world" where
  "Header_Set k v w =
     emit (EvSetHeader k v) (w\<lparr>rw := (rw w)\<lparr>header := (header (rw w))(k \<mapsto> v)\<rparr>\<rparr>)"

text \<open>Only the first \<^verbatim>\<open>WriteHeader\<close> counts: it fixes the status and a copy of the
  header map. A later call is ignored (Go logs it as superfluous), and later changes of
  the header map are not sent.\<close>

definition commitHeader :: "nat \<Rightarrow> response \<Rightarrow> response" where
  "commitHeader code r =
     (if wroteHeader r then r
      else r\<lparr>wroteHeader := True, status := code, sentHeader := header r\<rparr>)"

definition WriteHeader :: "nat \<Rightarrow> world \<Rightarrow> world" where
  "WriteHeader code w = emit (EvWriteHeader code) (w\<lparr>rw := commitHeader code (rw w)\<rparr>)"

text \<open>\<^verbatim>\<open>rw.Write\<close>: sends the header with status 200 first when none was sent; the bytes
  reach the body unless the write fails.\<close>

definition Write :: "bool \<Rightarrow> string \<Rightarrow> world \<Rightarrow> world" where
  "Write fails data w =
     (let r = commitHeader 200 (rw w)
      in emit (EvWrite data (\<not> fails))
           (w\<lparr>rw := (if fails then r else r\<lparr>body := body r @ data\<rparr>)\<rparr>))"

definition Flush :: "world \<Rightarrow> world" where
  "Flush w = emit EvFlush w"

text \<open>\<^verbatim>\<open>httpError\<close>; the result of its \<^verbatim>\<open>Write\<close> is discarded by the source.\<close>

definition httpError :: "nat \<Rightarrow> string \<Rightarrow> world \<Rightarrow> world" where
  "httpError statusCode msg w =
     Write False msg
       (WriteHeader statusCode
          (Header_Set ''Content-Type'' ''text/plain; charset=utf-8'' w))"

text \<open>\<^verbatim>\<open>http.ServeFile\<close> is the library's static file server: the model records the
  path it is given and the node found there. Status and body of the answer are the
  library's: the content of a regular file for a plain request, and a refusal of its
  own, among others, for a request whose URL path has a \<^verbatim>\<open>..\<close> element.\<close>

definition ServeFile :: "string \<Rightarrow> world \<Rightarrow> world" where
  "ServeFile name w =
     emit (EvServeFile name) (w\<lparr>rw := (rw w)\<lparr>served := Some (name, fs w name)\<rparr>\<rparr>)"

subsection \<open>The file system\<close>

definition os_Open :: "env \<Rightarrow> string \<Rightarrow> world \<Rightarrow> errno option \<times> world" where
  "os_Open e name w =
     (if openFault e name then Some OtherError
      else if fs w name = None then Some NotExist
      else None,
      emit (EvOpen name) w)"

definition os_Close :: "string \<Rightarrow> world \<Rightarrow> world" where
  "os_Close name w = emit (EvClose name) w"

text \<open>\<^verbatim>\<open>os.MkdirAll\<close>: nothing to do for a directory, an error for a regular file,
  otherwise the directory is created. The first component is True for an error.\<close>

definition os_MkdirAll :: "env \<Rightarrow> string \<Rightarrow> world \<Rightarrow> bool \<times> world" where
  "os_MkdirAll e name w =
     (if mkdirFault e name then (True, emit (EvMkdirAll name) w)
      else (case fs w name of
              Some Directory \<Rightarrow> (False, emit (EvMkdirAll name) w)
            | Some (Regular c) \<Rightarrow> (True, emit (EvMkdirAll name) w)
            | None \<Rightarrow> (False, emit (EvMkdirAll name) (w\<lparr>fs := (fs w)(name \<mapsto> Directory)\<rparr>))))"

definition os_Stat :: "env \<Rightarrow> string \<Rightarrow> world \<Rightarrow> errno option \<times> world" where
  "os_Stat e name w =
     (if statFault e name then Some OtherError
      else if fs w name = None then Some NotExist
      else None,
      emit (EvStat name) w)"

definition os_Remove :: "string \<Rightarrow> world \<Rightarrow> world" where
  "os_Remove name w = emit (EvRemove name) (w\<lparr>fs := (fs w)(name := None)\<rparr>)"

subsection \<open>The encoder process\<close>

text \<open>The command line that \<^verbatim>\<open>transcodeFile\<close> builds.\<close>

definition ffmpegArgs :: "string \<Rightarrow> int \<Rightarrow> string \<Rightarrow> string list" where
  "ffmpegArgs inputFile width outputFile =
     [''ffmpeg'', ''-y'', ''-i'', inputFile,
      ''-filter_complex'', ''scale='' @ Itoa width @ '':-2[mid];[mid]split=2[out1][out2]'',
      ''-map'', ''0:a'', ''-c:a'', ''aac'', ''-b:a'', ''128k'',
      ''-map'', ''[out1]'', ''-c:v'', ''libx265'', ''-b:v'', ''1000k'',
      ''-movflags'', ''+faststart'', outputFile,
      ''-map'', ''0:a'', ''-c:a'', ''aac'', ''-b:a'', ''128k'',
      ''-map'', ''[out2]'', ''-c:v'', ''libx265'', ''-b:v'', ''1000k'',
      ''-movflags'', ''isml+frag_keyframe'', ''-f'', ''ismv'', ''-'']"

text \<open>The encoder is an external program. Of its behaviour the model fixes this much.
  The file it writes is the first output of its command line (position 20 above). It
  can create that file when nothing refuses it, the directory the file is to stand in
  exists, and the name is not that of a directory; it then creates the file empty when
  it starts (\<^verbatim>\<open>-y\<close> overwrites) and extends it as it emits its standard output (see
  \<open>reader_Read\<close>). When it cannot create the file it gives up at once: it writes no
  file and nothing to its standard output, and the world records that it \<open>aborted\<close>.\<close>

definition encoderOutput :: "string list \<Rightarrow> string" where
  "encoderOutput argv = (if 20 < length argv then argv ! 20 else [])"

definition creatable :: "env \<Rightarrow> (string \<rightharpoonup> node) \<Rightarrow> string \<Rightarrow> bool" where
  "creatable e f name =
     (\<not> outputFault e \<and> f (Dir name) = Some Directory \<and> f name \<noteq> Some Directory)"

definition appendFile :: "string \<Rightarrow> string \<Rightarrow> (string \<rightharpoonup> node) \<Rightarrow> (string \<rightharpoonup> node)" where
  "appendFile name d f =
     (case f name of Some (Regular c) \<Rightarrow> f(name \<mapsto> Regular (c @ d)) | _ \<Rightarrow> f)"

definition cmd_Start :: "env \<Rightarrow> string list \<Rightarrow> world \<Rightarrow> world" where
  "cmd_Start e argv w =
     (if creatable e (fs w) (encoderOutput argv)
      then emit (EvStart argv True)
             (w\<lparr>proc := Running, outFile := encoderOutput argv, pipe := script e,
                fs := (fs w)(encoderOutput argv \<mapsto> Regular [])\<rparr>)
      else emit (EvStart argv True)
             (w\<lparr>proc := Running, outFile := encoderOutput argv, pipe := [],
                aborted := True\<rparr>))"

text \<open>\<^verbatim>\<open>transcodeFile\<close>: the first component is True where the source returns an error
  (no pipe, or the process did not start).\<close>

definition transcodeFile :: "env \<Rightarrow> string \<Rightarrow> int \<Rightarrow> string \<Rightarrow> world \<Rightarrow> bool \<times> world" where
  "transcodeFile e inputFile width outputFile w =
     (let argv = ffmpegArgs inputFile width outputFile;
          w1 = emit EvStdoutPipe w
      in if pipeFault e then (True, w1)
         else if startFault e then (True, emit (EvStart argv False) w1)
         else (False, cmd_Start e argv w1))"

text \<open>\<^verbatim>\<open>reader.Read(buf)\<close> with a buffer of \<open>n\<close> bytes: at most \<open>n\<close> bytes of the next
  arrival, the rest of it staying in the pipe; end of file once the pipe is drained.\<close>

definition reader_Read :: "nat \<Rightarrow> world \<Rightarrow> string \<times> readError option \<times> world" where
  "reader_Read n w =
     (case pipe w of
        [] \<Rightarrow> ([], Some EOF, emit (EvRead 0 (Some EOF)) w)
      | s # rest \<Rightarrow>
          (let w1 = w\<lparr>fs := appendFile (outFile w) (disk s) (fs w)\<rparr>
           in if length (live s) \<le> n
              then (live s, lerr s,
                    emit (EvRead (length (live s)) (lerr s)) (w1\<lparr>pipe := rest\<rparr>))
              else (take n (live s), None,
                    emit (EvRead n None)
                      (w1\<lparr>pipe := s\<lparr>live := drop n (live s), disk := []\<rparr> # rest\<rparr>))))"

definition reader_Close :: "world \<Rightarrow> world" where
  "reader_Close w = emit EvReaderClose w"

text \<open>\<^verbatim>\<open>cmd.Process.Kill()\<close>, which the source calls when \<^verbatim>\<open>cmd.Process\<close> is not nil,
  and \<^verbatim>\<open>cmd.Wait()\<close>; both results are discarded by the source.\<close>

definition Process_Kill :: "world \<Rightarrow> world" where
  "Process_Kill w =
     (if proc w = NotStarted then w
      else emit EvKill (w\<lparr>proc := (if proc w = Running then Killed else proc w)\<rparr>))"

definition cmd_Wait :: "world \<Rightarrow> world" where
  "cmd_Wait w =
     emit EvWait (w\<lparr>proc := (if proc w = NotStarted then NotStarted else Reaped)\<rparr>)"

section \<open>The stream pump\<close>

text \<open>What a check of \<^verbatim>\<open>ctx.Done()\<close> finds, and whether a write fails, when it is call
  number \<open>c\<close> of the goroutine (the first call has number 0).\<close>

definition cancelled :: "env \<Rightarrow> nat \<Rightarrow> bool" where
  "cancelled e c = (case cancelAt e of None \<Rightarrow> False | Some k \<Rightarrow> k \<le> c)"

definition writeFails :: "env \<Rightarrow> nat \<Rightarrow> bool" where
  "writeFails e c = (case writeFaultAt e of None \<Rightarrow> False | Some k \<Rightarrow> k \<le> c)"

fun pipeSize :: "encStep list \<Rightarrow> nat" where
  "pipeSize [] = 0"
| "pipeSize (s # rest) = Suc (length (live s)) + pipeSize rest"

lemma trace_emit [simp]: "trace (emit ev w) = trace w @ [ev]"
  and fs_emit [simp]: "fs (emit ev w) = fs w"
  and rw_emit [simp]: "rw (emit ev w) = rw w"
  and proc_emit [simp]: "proc (emit ev w) = proc w"
  and outFile_emit [simp]: "outFile (emit ev w) = outFile w"
  and pipe_emit [simp]: "pipe (emit ev w) = pipe w"
  and aborted_emit [simp]: "aborted (emit ev w) = aborted w"
  by (simp_all add: emit_def)

lemma pipe_Write [simp]: "pipe (Write b d w) = pipe w"
  by (simp add: Write_def Let_def)

lemma pipe_Flush [simp]: "pipe (Flush w) = pipe w"
  by (simp add: Flush_def)

lemma reader_Read_decreases:
  "reader_Read n w = (d, None, w1) \<Longrightarrow> 0 < n \<Longrightarrow> pipeSize (pipe w1) < pipeSize (pipe w)"
  by (auto simp: reader_Read_def Let_def split: list.splits if_splits)

text \<open>The body of the goroutine of \<^verbatim>\<open>handleTranscodeRequest\<close>, one iteration of its
  loop, entered when the goroutine has made \<open>i\<close> calls: the \<^verbatim>\<open>select\<close> on
  \<^verbatim>\<open>ctx.Done()\<close> (call \<open>i\<close>), then one read into the 16 KiB buffer (call \<open>i + 1\<close>),
  the write (call \<open>i + 2\<close>) and the flush (call \<open>i + 3\<close>) of what was read, and the
  test of the read's error. The outcome names the \<^verbatim>\<open>return\<close> that ended the loop.\<close>

function pump :: "env \<Rightarrow> string \<Rightarrow> nat \<Rightarrow> world \<Rightarrow> outcome \<times> world" where
  "pump e transcodedFilePath i w =
     (if cancelled e i then (Cancelled, emit (EvCtxDone True) w)
      else (case reader_Read (16 * 1024) (emit (EvCtxDone False) w) of
              (data, err, w1) \<Rightarrow>
                if data \<noteq> [] \<and> writeFails e (i + 2)
                then (WriteError, emit (EvLog ''Error writing to client'') (Write True data w1))
                else (let w2 = (if data \<noteq> [] then Flush (Write False data w1) else w1)
                      in case err of
                           None \<Rightarrow>
                             pump e transcodedFilePath (if data \<noteq> [] then i + 4 else i + 2) w2
                         | Some EOF \<Rightarrow> (Completed, w2)
                         | Some ReadFailure \<Rightarrow>
                             (ReadError,
                              emit (EvLog ''Error reading transcoded data'')
                                (os_Remove transcodedFilePath w2)))))"
  by pat_completeness auto
termination
  apply (relation "measure (\<lambda>(e, p, i, w). pipeSize (pipe w))")
   apply simp
  apply (simp split: if_splits)
  apply (auto dest!: sym [of _ "reader_Read _ _"] dest: reader_Read_decreases)
  done

declare pump.simps [simp del]

section \<open>The request handler\<close>

text \<open>The loop over \<^verbatim>\<open>config.Widths\<close>.\<close>

fun widthFound :: "int list \<Rightarrow> int \<Rightarrow> bool" where
  "widthFound [] width = False"
| "widthFound (val # vals) width = (if val = width then True else widthFound vals width)"

text \<open>\<^verbatim>\<open>handleTranscodeRequest\<close> is modelled in three parts, so that each deferred call
  of the source runs where the function that registered it returns. \<open>streamStarted\<close> is
  the part after the second \<^verbatim>\<open>defer\<close>: the goroutine and the final \<^verbatim>\<open>select\<close>. The
  model follows the schedule in which the goroutine has returned when the handler
  passes its \<^verbatim>\<open>select\<close>; the handler takes the \<^verbatim>\<open>ctx.Done()\<close> case when the goroutine
  did.\<close>

definition streamStarted :: "env \<Rightarrow> string \<Rightarrow> world \<Rightarrow> world" where
  "streamStarted e transcodedFilePath w =
     (case pump e transcodedFilePath 0 w of
        (res, w1) \<Rightarrow>
          if res = Cancelled
          then emit (EvLog ''Client disconnected or request cancelled. Cleaning up...'') w1
          else w1)"

text \<open>\<open>serveOpened\<close> is the part after the source file was opened, up to the deferred
  \<^verbatim>\<open>origFile.Close()\<close>. Once \<^verbatim>\<open>transcodeFile\<close> has returned a process, the deferred
  calls run in reverse order after \<open>streamStarted\<close>: \<^verbatim>\<open>reader.Close()\<close>, then
  \<^verbatim>\<open>Kill\<close> and \<^verbatim>\<open>Wait\<close>.\<close>

definition serveOpened :: "env \<Rightarrow> JSONConfig \<Rightarrow> int \<Rightarrow> string \<Rightarrow> string \<Rightarrow> world \<Rightarrow> world" where
  "serveOpened e config width filename origFilePath w =
     (let outputDir = Join (OutputDir config) (Itoa width)
      in case os_MkdirAll e outputDir w of
           (True, w1) \<Rightarrow>
             httpError 500 ''Could not create output directory''
               (emit (EvLog ''Error creating output directory'') w1)
         | (False, w1) \<Rightarrow>
             (let transcodedFilePath = Join outputDir filename
              in case os_Stat e transcodedFilePath w1 of
                   (None, w2) \<Rightarrow> ServeFile transcodedFilePath w2
                 | (Some err, w2) \<Rightarrow>
                     if err \<noteq> NotExist
                     then httpError 500 ''Internal Server Error''
                            (emit (EvLog ''Error stat transcoded file'') w2)
                     else if \<not> hasFlusher e
                     then httpError 500 ''Streaming not supported'' w2
                     else (let w3 = WriteHeader 200
                                      (Header_Set ''Transfer-Encoding'' ''chunked''
                                         (Header_Set ''Content-Type'' ''video/mp4'' w2))
                           in case transcodeFile e origFilePath width transcodedFilePath w3 of
                                (True, w4) \<Rightarrow>
                                  httpError 500 ''Failed to start transcoding''
                                    (emit (EvLog ''Error starting transcoding'') w4)
                              | (False, w4) \<Rightarrow>
                                  cmd_Wait (Process_Kill (reader_Close
                                    (streamStarted e transcodedFilePath w4))))))"

definition handleTranscodeRequest :: "env \<Rightarrow> JSONConfig \<Rightarrow> string \<Rightarrow> world \<Rightarrow> world" where
  "handleTranscodeRequest e config reqPath w =
     (case FindStringSubmatch reqPath of
        None \<Rightarrow> httpError 404 ''Not Found'' w
      | Some (widthStr, name) \<Rightarrow>
          (case Atoi widthStr of
             Inl err \<Rightarrow> httpError 400 ''Invalid Width'' w
           | Inr width \<Rightarrow>
               if \<not> widthFound (Widths config) width
               then httpError 400 ''Invalid Width'' w
               else (let filename = Clean name
                     in if Contains filename ''../'' \<or> IsAbs filename
                        then httpError 400 ''Invalid file path'' w
                        else (let origFilePath = Join (InputDir config) filename
                              in case os_Open e origFilePath w of
                                   (Some err, w1) \<Rightarrow>
                                     if err = NotExist
                                     then httpError 404 ''File Not Found'' w1
                                     else httpError 500 ''Internal Server Error''
                                            (emit (EvLog ''Error opening original file'') w1)
                                 | (None, w1) \<Rightarrow>
                                     os_Close origFilePath
                                       (serveOpened e config width filename
                                          origFilePath w1)))))"

text \<open>A request arrives with a response writer nothing was written to and with no
  encoder process.\<close>

definition freshResponse :: response where
  "freshResponse =
     \<lparr>header = Map.empty, wroteHeader = False, status = 0, sentHeader = Map.empty,
      body = [], served = None\<rparr>"

definition freshWorld :: "(string \<rightharpoonup> node) \<Rightarrow> world" where
  "freshWorld f =
     \<lparr>fs = f, rw = freshResponse, proc = NotStarted, outFile = [], pipe = [],
      aborted = False, trace = []\<rparr>"

section \<open>Vocabulary of the claims\<close>

text \<open>A request is validated when the handler has passed its route, width and filename
  checks: \<open>width\<close> and \<open>filename\<close> are then the values the rest of the handler uses.\<close>

definition validated :: "JSONConfig \<Rightarrow> string \<Rightarrow> int \<Rightarrow> string \<Rightarrow> bool" where
  "validated config reqPath width filename =
     (case FindStringSubmatch reqPath of
        None \<Rightarrow> False
      | Some (widthStr, name) \<Rightarrow>
          Atoi widthStr = Inr width \<and> widthFound (Widths config) width
          \<and> filename = Clean name \<and> \<not> Contains filename ''../'' \<and> \<not> IsAbs filename)"

text \<open>The handler's \<^verbatim>\<open>origFilePath\<close>, \<^verbatim>\<open>outputDir\<close> and \<^verbatim>\<open>transcodedFilePath\<close>; the
  last is the canonical cache path of the key.\<close>

definition sourcePath :: "JSONConfig \<Rightarrow> string \<Rightarrow> string" where
  "sourcePath config filename = Join (InputDir config) filename"

definition canonicalDir :: "JSONConfig \<Rightarrow> int \<Rightarrow> string" where
  "canonicalDir config width = Join (OutputDir config) (Itoa width)"

definition canonicalPath :: "JSONConfig \<Rightarrow> int \<Rightarrow> string \<Rightarrow> string" where
  "canonicalPath config width filename = Join (canonicalDir config width) filename"

text \<open>The runs the specification allows the stream pump, as sequences of its calls from
  call number \<open>i\<close> on. Every iteration starts with the check of the cancellation signal.
  When the signal is set nothing follows. Otherwise one read of at most 16 KiB follows;
  a chunk that is not empty is written and, when the write succeeded, flushed
  (\<open>written\<close>); a failed write ends the run; a read that reported end of file ends it
  as completed; a read that reported another error ends it with the removal of the
  cache file; a read without error is followed by the next iteration.\<close>

definition written :: "string \<Rightarrow> event list" where
  "written d = (if d = [] then [] else [EvWrite d True, EvFlush])"

inductive pumpRun :: "env \<Rightarrow> string \<Rightarrow> nat \<Rightarrow> outcome \<Rightarrow> event list \<Rightarrow> bool"
  for e :: env and p :: string where
  ctx_done:
    "cancelled e i \<Longrightarrow> pumpRun e p i Cancelled [EvCtxDone True]"
| write_error:
    "\<not> cancelled e i \<Longrightarrow> d \<noteq> [] \<Longrightarrow> length d \<le> 16 * 1024 \<Longrightarrow> writeFails e (i + 2) \<Longrightarrow>
     pumpRun e p i WriteError
       [EvCtxDone False, EvRead (length d) err, EvWrite d False,
        EvLog ''Error writing to client'']"
| clean_eof:
    "\<not> cancelled e i \<Longrightarrow> length d \<le> 16 * 1024 \<Longrightarrow> d = [] \<or> \<not> writeFails e (i + 2) \<Longrightarrow>
     pumpRun e p i Completed ([EvCtxDone False, EvRead (length d) (Some EOF)] @ written d)"
| read_error:
    "\<not> cancelled e i \<Longrightarrow> length d \<le> 16 * 1024 \<Longrightarrow> d = [] \<or> \<not> writeFails e (i + 2) \<Longrightarrow>
     pumpRun e p i ReadError
       ([EvCtxDone False, EvRead (length d) (Some ReadFailure)] @ written d
        @ [EvRemove p, EvLog ''Error reading transcoded data''])"
| next_chunk:
    "\<not> cancelled e i \<Longrightarrow> length d \<le> 16 * 1024 \<Longrightarrow> d = [] \<or> \<not> writeFails e (i + 2) \<Longrightarrow>
     pumpRun e p (if d \<noteq> [] then i + 4 else i + 2) res evs \<Longrightarrow>
     pumpRun e p i res ([EvCtxDone False, EvRead (length d) None] @ written d @ evs)"

text \<open>An event that reports a started encoder process.\<close>

definition started :: "event \<Rightarrow> bool" where
  "started ev = (case ev of EvStart argv ok \<Rightarrow> ok | _ \<Rightarrow> False)"

text \<open>The three calls with which the handler announces a streamed response.\<close>

definition streamHeaders :: "world \<Rightarrow> world" where
  "streamHeaders w =
     WriteHeader 200 (Header_Set ''Transfer-Encoding'' ''chunked''
       (Header_Set ''Content-Type'' ''video/mp4'' w))"

text \<open>A read that reported end of file, and a write to the client that failed. A request
  has generated its artifact when its stream was read to the end of file, no write to
  the client failed, and the encoder did not give up for want of its output file.\<close>

definition cleanEOF :: "event \<Rightarrow> bool" where
  "cleanEOF ev = (case ev of EvRead n err \<Rightarrow> err = Some EOF | _ \<Rightarrow> False)"

definition failedWrite :: "event \<Rightarrow> bool" where
  "failedWrite ev = (case ev of EvWrite d ok \<Rightarrow> \<not> ok | _ \<Rightarrow> False)"

definition generated :: "world \<Rightarrow> bool" where
  "generated w =
     (list_ex cleanEOF (trace w) \<and> \<not> list_ex failedWrite (trace w) \<and> \<not> aborted w)"

text \<open>The arrivals a pump that is not interrupted takes from a pipe: all up to the first
  one whose read reports end of file or an error.\<close>

primrec emitted :: "encStep list \<Rightarrow> encStep list" where
  "emitted [] = []"
| "emitted (s # rest) = s # (if lerr s = None then emitted rest else [])"

text \<open>Tests on the calls of a run of the pump. A chunk is bounded when a read returned
  and a write carried at most 16 KiB, a write none the less something. Writes are
  flushed when each write that succeeded is directly followed by a flush. Reads are
  checked when each read directly follows a check of the cancellation signal that
  found it unset (\<open>prev\<close> is the call before the list). A run stops when done if
  nothing follows a check that found the signal set. There is no retry when no read
  follows a read that reported end of file or an error, and neither a read nor a write
  follows a failed write.\<close>

definition isRead :: "event \<Rightarrow> bool" where
  "isRead ev = (case ev of EvRead n err \<Rightarrow> True | _ \<Rightarrow> False)"

definition isWrite :: "event \<Rightarrow> bool" where
  "isWrite ev = (case ev of EvWrite d ok \<Rightarrow> True | _ \<Rightarrow> False)"

definition endedRead :: "event \<Rightarrow> bool" where
  "endedRead ev = (case ev of EvRead n err \<Rightarrow> err \<noteq> None | _ \<Rightarrow> False)"

definition boundedChunk :: "event \<Rightarrow> bool" where
  "boundedChunk ev =
     (case ev of
        EvRead n err \<Rightarrow> n \<le> 16 * 1024
      | EvWrite d ok \<Rightarrow> d \<noteq> [] \<and> length d \<le> 16 * 1024
      | _ \<Rightarrow> True)"

primrec flushedWrites :: "event list \<Rightarrow> bool" where
  "flushedWrites [] = True"
| "flushedWrites (ev # rest) =
     ((if isWrite ev \<and> \<not> failedWrite ev then take 1 rest = [EvFlush] else True)
      \<and> flushedWrites rest)"

primrec checkedReads :: "event \<Rightarrow> event list \<Rightarrow> bool" where
  "checkedReads prev [] = True"
| "checkedReads prev (ev # rest) =
     ((if isRead ev then prev = EvCtxDone False else True) \<and> checkedReads ev rest)"

primrec stopsWhenDone :: "event list \<Rightarrow> bool" where
  "stopsWhenDone [] = True"
| "stopsWhenDone (ev # rest) =
     ((if ev = EvCtxDone True then rest = [] else True) \<and> stopsWhenDone rest)"

primrec noRetry :: "event list \<Rightarrow> bool" where
  "noRetry [] = True"
| "noRetry (ev # rest) =
     ((if endedRead ev then \<not> list_ex isRead rest else True)
      \<and> (if failedWrite ev then \<not> list_ex isRead rest \<and> \<not> list_ex isWrite rest else True)
      \<and> noRetry rest)"

text \<open>What the calls of a run carry: the results of its reads, the bytes of its writes
  (\<open>offered\<close>), and the bytes of its writes that succeeded (\<open>delivered\<close>).\<close>

primrec reads :: "event list \<Rightarrow> (nat \<times> readError option) list" where
  "reads [] = []"
| "reads (ev # rest) = (case ev of EvRead n err \<Rightarrow> [(n, err)] | _ \<Rightarrow> []) @ reads rest"

primrec offered :: "event list \<Rightarrow> string" where
  "offered [] = []"
| "offered (ev # rest) = (case ev of EvWrite d ok \<Rightarrow> d | _ \<Rightarrow> []) @ offered rest"

primrec delivered :: "event list \<Rightarrow> string" where
  "delivered [] = []"
| "delivered (ev # rest) =
     (case ev of EvWrite d ok \<Rightarrow> (if ok then d else []) | _ \<Rightarrow> []) @ delivered rest"

text \<open>What reads through a buffer of \<open>n\<close> bytes return on a pipe that is drained to its
  end: an arrival of at most \<open>n\<close> bytes in one read, which reports the arrival's error;
  a longer one in reads of \<open>n\<close> bytes without error, followed by a read of the rest; and
  end of file with no bytes after the last arrival.\<close>

fun chunkReads :: "nat \<Rightarrow> nat \<Rightarrow> readError option \<Rightarrow> (nat \<times> readError option) list" where
  "chunkReads n len err =
     (if n = 0 \<or> len \<le> n then [(len, err)] else (n, None) # chunkReads n (len - n) err)"

primrec expectedReads :: "nat \<Rightarrow> encStep list \<Rightarrow> (nat \<times> readError option) list" where
  "expectedReads n [] = [(0, Some EOF)]"
| "expectedReads n (s # rest) =
     chunkReads n (length (live s)) (lerr s) @ expectedReads n rest"

text \<open>The calls of a run taken as call number \<open>c\<close> and following of the goroutine. They
  are on the clock when each check of the cancellation signal reports whether the signal
  was set by then, and each write fails exactly when writes to the client fail by then.
  A write is late when the signal was set before it was made.\<close>

primrec onClock :: "env \<Rightarrow> nat \<Rightarrow> event list \<Rightarrow> bool" where
  "onClock e c [] = True"
| "onClock e c (ev # rest) =
     ((case ev of
         EvCtxDone b \<Rightarrow> b = cancelled e c
       | EvWrite d ok \<Rightarrow> ok = (\<not> writeFails e c)
       | _ \<Rightarrow> True)
      \<and> onClock e (Suc c) rest)"

primrec lateWrites :: "env \<Rightarrow> nat \<Rightarrow> event list \<Rightarrow> nat" where
  "lateWrites e c [] = 0"
| "lateWrites e c (ev # rest) =
     (if isWrite ev \<and> cancelled e c then 1 else 0) + lateWrites e (Suc c) rest"

declare chunkReads.simps [simp del]

text \<open>A run from call number \<open>i\<close> on that took the world from \<open>w\<close> to \<open>w'\<close> carries the
  stream to the client when its reads are the first of those a 16 KiB buffer gives on
  the pipe of \<open>w\<close>, the bytes of its writes are the bytes it took from the pipe, the
  bytes of its writes that succeeded are what it added to the body of the response, its
  calls are on the clock, and at most one of its writes is late, none if the signal was
  set when the run began.\<close>

definition carries :: "env \<Rightarrow> nat \<Rightarrow> world \<Rightarrow> world \<Rightarrow> event list \<Rightarrow> bool" where
  "carries e i w w' evs =
     (take (length (reads evs)) (expectedReads (16 * 1024) (pipe w)) = reads evs
      \<and> concat (map live (pipe w)) = offered evs @ concat (map live (pipe w'))
      \<and> body (rw w') = body (rw w) @ delivered evs
      \<and> onClock e i evs
      \<and> lateWrites e i evs \<le> (if cancelled e i then 0 else 1))"

section \<open>A concrete installation\<close>

text \<open>The configuration of the README, cut down to two widths, one video in the input
  directory, and an encoder that emits its output in two arrivals.\<close>

definition exConfig :: JSONConfig where
  "exConfig =
     \<lparr>Host = ''localhost'', Port = 8000, InputDir = ''/in'', OutputDir = ''/out'',
      Widths = [480, 720]\<rparr>"

definition exFs :: "string \<rightharpoonup> node" where
  "exFs = [''/'' \<mapsto> Directory, ''/in'' \<mapsto> Directory, ''/out'' \<mapsto> Directory,
           ''/in/movie.mp4'' \<mapsto> Regular ''source'']"

definition exEnv :: env where
  "exEnv =
     \<lparr>openFault = (\<lambda>name. False), mkdirFault = (\<lambda>name. False),
      statFault = (\<lambda>name. False), hasFlusher = True, pipeFault = False,
      startFault = False, outputFault = False,
      script = [\<lparr>live = ''ab'', lerr = None, disk = ''AB''\<rparr>,
                \<lparr>live = ''cd'', lerr = None, disk = ''CD''\<rparr>],
      cancelAt = None, writeFaultAt = None\<rparr>"

text \<open>The same installation with a client that goes away after the first chunk: the
  context is cancelled when the goroutine has made four calls, the check, the read, the
  write and the flush of that chunk.\<close>

definition exCancelled :: env where
  "exCancelled = exEnv\<lparr>cancelAt := Some 4\<rparr>"

text \<open>The same installation with a request whose context is cancelled while the first
  read of the goroutine is pending: the check before it has found nothing.\<close>

definition exLate :: env where
  "exLate = exEnv\<lparr>cancelAt := Some 1\<rparr>"

text \<open>The world right after the encoder was started for \<^verbatim>\<open>/480p/movie.mp4\<close>.\<close>

definition exStarted :: world where
  "exStarted =
     (freshWorld (exFs(''/out/480'' \<mapsto> Directory, ''/out/480/movie.mp4'' \<mapsto> Regular [])))
       \<lparr>proc := Running, outFile := ''/out/480/movie.mp4'', pipe := script exEnv\<rparr>"

text \<open>File systems with the finished artifact of \<^verbatim>\<open>/480p/movie.mp4\<close> in the cache,
  with and without the source video, and environments in which the output directory
  cannot be created and in which the encoder cannot be started.\<close>

definition exCached :: "string \<rightharpoonup> node" where
  "exCached = exFs(''/out/480'' \<mapsto> Directory, ''/out/480/movie.mp4'' \<mapsto> Regular ''ABCD'')"

definition exOrphan :: "string \<rightharpoonup> node" where
  "exOrphan = [''/'' \<mapsto> Directory, ''/in'' \<mapsto> Directory, ''/out'' \<mapsto> Directory,
               ''/out/480'' \<mapsto> Directory, ''/out/480/movie.mp4'' \<mapsto> Regular ''ABCD'']"

definition exNoMkdir :: env where
  "exNoMkdir = exEnv\<lparr>mkdirFault := (\<lambda>name. True)\<rparr>"

definition exNoEncoder :: env where
  "exNoEncoder = exEnv\<lparr>startFault := True\<rparr>"

text \<open>Environments in which the root directory, and in which the source video, cannot
  be opened for reading.\<close>

definition exDenied :: env where
  "exDenied = exEnv\<lparr>openFault := (\<lambda>name. name = ''/'')\<rparr>"

definition exUnreadable :: env where
  "exUnreadable = exEnv\<lparr>openFault := (\<lambda>name. name = ''/in/movie.mp4'')\<rparr>"

section \<open>Facts about the parts\<close>

lemma widthFound_iff: "widthFound vals width = (width \<in> set vals)"
  by (induction vals) auto

lemma FindStringSubmatch_groups:
  assumes "FindStringSubmatch reqPath = Some (widthStr, name)"
  shows "widthStr \<noteq> [] \<and> list_all isDigit widthStr \<and> name \<noteq> []"
proof -
  from assms obtain rest where "widthStr = takeWhile isDigit rest" "widthStr \<noteq> []" "name \<noteq> []"
    by (auto simp: FindStringSubmatch_def Let_def split: list.splits if_splits)
  moreover have "list_all isDigit (takeWhile isDigit rest)"
    by (auto simp: list_all_iff dest: set_takeWhileD)
  ultimately show ?thesis by simp
qed

lemma Atoi_digits:
  assumes "ds \<noteq> []" and "list_all isDigit ds"
  shows "Atoi ds = (if maxInt < int (digitsVal 0 ds) then Inl ErrRange
                    else Inr (int (digitsVal 0 ds)))"
proof -
  from assms obtain c cs where ds: "ds = c # cs" and c: "isDigit c"
    by (cases ds) auto
  from c have "c \<noteq> CHR ''-''" "c \<noteq> CHR ''+''"
    by (auto simp: isDigit_def)
  with ds assms(2) show ?thesis
    by (simp add: Atoi_def Let_def minInt_def)
qed

lemma httpError_frame [simp]:
  "fs (httpError c m w) = fs w"
  "proc (httpError c m w) = proc w"
  "pipe (httpError c m w) = pipe w"
  "outFile (httpError c m w) = outFile w"
  "trace (httpError c m w) =
     trace w @ [EvSetHeader ''Content-Type'' ''text/plain; charset=utf-8'',
                EvWriteHeader c, EvWrite m True]"
  by (simp_all add: httpError_def Write_def WriteHeader_def Header_Set_def Let_def)

lemma httpError_fresh:
  assumes "\<not> wroteHeader (rw w)"
  shows "status (rw (httpError c m w)) = c"
    and "sentHeader (rw (httpError c m w)) ''Content-Type'' = Some ''text/plain; charset=utf-8''"
    and "body (rw (httpError c m w)) = body (rw w) @ m"
    and "served (rw (httpError c m w)) = served (rw w)"
  using assms
  by (simp_all add: httpError_def Write_def WriteHeader_def Header_Set_def Let_def commitHeader_def)

lemma handler_validated:
  assumes "validated config reqPath width filename"
  shows "handleTranscodeRequest e config reqPath w =
     (case os_Open e (sourcePath config filename) w of
        (Some err, w1) \<Rightarrow>
          if err = NotExist then httpError 404 ''File Not Found'' w1
          else httpError 500 ''Internal Server Error''
                 (emit (EvLog ''Error opening original file'') w1)
      | (None, w1) \<Rightarrow>
          os_Close (sourcePath config filename)
            (serveOpened e config width filename (sourcePath config filename) w1))"
  using assms unfolding sourcePath_def
  by (auto simp: validated_def handleTranscodeRequest_def Let_def
           split: option.splits sum.splits)

lemma reader_Read_frame:
  assumes "reader_Read n w = (d, err, w1)"
  shows "trace w1 = trace w @ [EvRead (length d) err]"
    and "length d \<le> n"
    and "rw w1 = rw w" and "proc w1 = proc w" and "outFile w1 = outFile w"
    and "name \<noteq> outFile w \<Longrightarrow> fs w1 name = fs w name"
  using assms
  by (auto simp: reader_Read_def Let_def appendFile_def
           split: list.splits if_splits option.splits node.splits)

lemma Write_frame [simp]:
  "trace (Write b d w) = trace w @ [EvWrite d (\<not> b)]"
  "fs (Write b d w) = fs w" "proc (Write b d w) = proc w" "outFile (Write b d w) = outFile w"
  by (simp_all add: Write_def Let_def)

lemma Flush_frame [simp]:
  "trace (Flush w) = trace w @ [EvFlush]"
  "fs (Flush w) = fs w" "proc (Flush w) = proc w" "outFile (Flush w) = outFile w"
  "rw (Flush w) = rw w"
  by (simp_all add: Flush_def)

lemma os_Remove_frame [simp]:
  "trace (os_Remove name w) = trace w @ [EvRemove name]"
  "fs (os_Remove name w) = (fs w)(name := None)"
  "proc (os_Remove name w) = proc w" "outFile (os_Remove name w) = outFile w"
  "rw (os_Remove name w) = rw w" "pipe (os_Remove name w) = pipe w"
  by (simp_all add: os_Remove_def)

lemma pump_unfold:
  assumes "reader_Read (16 * 1024) (emit (EvCtxDone False) w) = (d, err, w1)"
  shows "pump e p i w =
     (if cancelled e i then (Cancelled, emit (EvCtxDone True) w)
      else if d \<noteq> [] \<and> writeFails e (i + 2)
      then (WriteError, emit (EvLog ''Error writing to client'') (Write True d w1))
      else (case err of
              None \<Rightarrow> pump e p (if d \<noteq> [] then i + 4 else i + 2)
                        (if d \<noteq> [] then Flush (Write False d w1) else w1)
            | Some EOF \<Rightarrow> (Completed, if d \<noteq> [] then Flush (Write False d w1) else w1)
            | Some ReadFailure \<Rightarrow>
                (ReadError,
                 emit (EvLog ''Error reading transcoded data'')
                   (os_Remove p (if d \<noteq> [] then Flush (Write False d w1) else w1)))))"
  using assms by (subst pump.simps) (simp add: Let_def)

lemma pump_cases [case_names ctx_done write_error clean_eof read_error next_chunk]:
  assumes "\<And>i w. cancelled e i \<Longrightarrow> P i w (Cancelled, emit (EvCtxDone True) w)"
    and "\<And>i w d err w1.
          \<not> cancelled e i \<Longrightarrow>
          reader_Read (16 * 1024) (emit (EvCtxDone False) w) = (d, err, w1) \<Longrightarrow>
          d \<noteq> [] \<Longrightarrow> writeFails e (i + 2) \<Longrightarrow>
          P i w (WriteError, emit (EvLog ''Error writing to client'') (Write True d w1))"
    and "\<And>i w d w1 w2.
          \<not> cancelled e i \<Longrightarrow>
          reader_Read (16 * 1024) (emit (EvCtxDone False) w) = (d, Some EOF, w1) \<Longrightarrow>
          d = [] \<or> \<not> writeFails e (i + 2) \<Longrightarrow>
          w2 = (if d \<noteq> [] then Flush (Write False d w1) else w1) \<Longrightarrow>
          P i w (Completed, w2)"
    and "\<And>i w d w1 w2.
          \<not> cancelled e i \<Longrightarrow>
          reader_Read (16 * 1024) (emit (EvCtxDone False) w) = (d, Some ReadFailure, w1) \<Longrightarrow>
          d = [] \<or> \<not> writeFails e (i + 2) \<Longrightarrow>
          w2 = (if d \<noteq> [] then Flush (Write False d w1) else w1) \<Longrightarrow>
          P i w (ReadError, emit (EvLog ''Error reading transcoded data'') (os_Remove p w2))"
    and "\<And>i w d w1 w2.
          \<not> cancelled e i \<Longrightarrow>
          reader_Read (16 * 1024) (emit (EvCtxDone False) w) = (d, None, w1) \<Longrightarrow>
          d = [] \<or> \<not> writeFails e (i + 2) \<Longrightarrow>
          w2 = (if d \<noteq> [] then Flush (Write False d w1) else w1) \<Longrightarrow>
          P (if d \<noteq> [] then i + 4 else i + 2) w2
            (pump e p (if d \<noteq> [] then i + 4 else i + 2) w2) \<Longrightarrow>
          P i w (pump e p (if d \<noteq> [] then i + 4 else i + 2) w2)"
  shows "P i w (pump e p i w)"
proof (induction e' \<equiv> e p' \<equiv> p i w rule: pump.induct)
  case (1 i w)
  obtain d err w1 where rd: "reader_Read (16 * 1024) (emit (EvCtxDone False) w) = (d, err, w1)"
    by (metis prod_cases3)
  note un = pump_unfold [OF rd, of e p i]
  show ?case
  proof (cases "cancelled e i")
    case True
    with un assms(1) show ?thesis by simp
  next
    case alive: False
    show ?thesis
    proof (cases "d \<noteq> [] \<and> writeFails e (i + 2)")
      case True
      with un alive rd assms(2) show ?thesis by simp
    next
      case ok: False
      define w2 where "w2 = (if d \<noteq> [] then Flush (Write False d w1) else w1)"
      from ok have ok': "d = [] \<or> \<not> writeFails e (i + 2)" by blast
      show ?thesis
      proof (cases err)
        case None
        have "P (if d \<noteq> [] then i + 4 else i + 2) w2
            (pump e p (if d \<noteq> [] then i + 4 else i + 2) w2)"
          by (rule "1.hyps" [OF alive rd [symmetric] refl ok w2_def None])
        with assms(5) [OF alive rd [unfolded None] ok' w2_def] un alive ok None
        show ?thesis by (auto simp: w2_def)
      next
        case (Some re)
        show ?thesis
        proof (cases re)
          case EOF
          with assms(3) [OF alive rd [unfolded Some EOF] ok' w2_def] un alive ok Some
          show ?thesis by (auto simp: w2_def)
        next
          case ReadFailure
          with assms(4) [OF alive rd [unfolded Some ReadFailure] ok' w2_def] un alive ok Some
          show ?thesis by (auto simp: w2_def)
        qed
      qed
    qed
  qed
qed


lemma trace_chunk:
  assumes "reader_Read n (emit (EvCtxDone False) w) = (d, err, w1)"
  shows "trace (if d \<noteq> [] then Flush (Write False d w1) else w1)
         = trace w @ [EvCtxDone False, EvRead (length d) err] @ written d"
  using reader_Read_frame(1) [OF assms] by (simp add: written_def)

lemma pump_run:
  "\<exists>evs. trace (snd (pump e p i w)) = trace w @ evs \<and> pumpRun e p i (fst (pump e p i w)) evs"
proof (induction i w rule: pump_cases [where e = e and p = p])
  case (ctx_done i w)
  then have "pumpRun e p i Cancelled [EvCtxDone True]"
    by (rule pumpRun.ctx_done)
  then show ?case by simp
next
  case (write_error i w d err w1)
  note fr = reader_Read_frame(1,2) [OF write_error(2)]
  from write_error(1,3) fr(2) write_error(4)
  have "pumpRun e p i WriteError
          [EvCtxDone False, EvRead (length d) err, EvWrite d False,
           EvLog ''Error writing to client'']"
    by (rule pumpRun.write_error)
  with fr(1) show ?case by simp
next
  case (clean_eof i w d w1 w2)
  from clean_eof(1) reader_Read_frame(2) [OF clean_eof(2)] clean_eof(3)
  have "pumpRun e p i Completed ([EvCtxDone False, EvRead (length d) (Some EOF)] @ written d)"
    by (rule pumpRun.clean_eof)
  with trace_chunk [OF clean_eof(2)] clean_eof(4) show ?case by simp
next
  case (read_error i w d w1 w2)
  from read_error(1) reader_Read_frame(2) [OF read_error(2)] read_error(3)
  have "pumpRun e p i ReadError
          ([EvCtxDone False, EvRead (length d) (Some ReadFailure)] @ written d
           @ [EvRemove p, EvLog ''Error reading transcoded data''])"
    by (rule pumpRun.read_error)
  with trace_chunk [OF read_error(2)] read_error(4) show ?case by simp
next
  case (next_chunk i w d w1 w2)
  let ?j = "if d \<noteq> [] then i + 4 else i + 2"
  from next_chunk(5) obtain evs where evs: "trace (snd (pump e p ?j w2)) = trace w2 @ evs"
      "pumpRun e p ?j (fst (pump e p ?j w2)) evs"
    by blast
  from next_chunk(1) reader_Read_frame(2) [OF next_chunk(2)] next_chunk(3) evs(2)
  have "pumpRun e p i (fst (pump e p ?j w2))
          ([EvCtxDone False, EvRead (length d) None] @ written d @ evs)"
    by (rule pumpRun.next_chunk)
  with trace_chunk [OF next_chunk(2)] next_chunk(4) evs(1) show ?case by simp
qed

lemma pump_frame:
  "proc (snd (pump e p i w)) = proc w \<and> outFile (snd (pump e p i w)) = outFile w"
proof (induction i w rule: pump_cases [where e = e and p = p])
  case (write_error i w d err w1)
  from reader_Read_frame(4,5) [OF write_error(2)] show ?case by simp
next
  case (clean_eof i w d w1 w2)
  from reader_Read_frame(4,5) [OF clean_eof(2)] clean_eof(4) show ?case by simp
next
  case (read_error i w d w1 w2)
  from reader_Read_frame(4,5) [OF read_error(2)] read_error(4) show ?case by simp
next
  case (next_chunk i w d w1 w2)
  from reader_Read_frame(4,5) [OF next_chunk(2)] next_chunk(4,5) show ?case by simp
qed simp

lemma pump_fs_frame:
  "name \<noteq> outFile w \<longrightarrow> name \<noteq> p \<longrightarrow> fs (snd (pump e p i w)) name = fs w name"
proof (induction i w rule: pump_cases [where e = e and p = p])
  case (write_error i w d err w1)
  from reader_Read_frame(6) [OF write_error(2), where name = name] show ?case by simp
next
  case (clean_eof i w d w1 w2)
  from reader_Read_frame(6) [OF clean_eof(2), where name = name] clean_eof(4) show ?case by simp
next
  case (read_error i w d w1 w2)
  from reader_Read_frame(6) [OF read_error(2), where name = name] read_error(4) show ?case by simp
next
  case (next_chunk i w d w1 w2)
  from reader_Read_frame(5) [OF next_chunk(2)]
    reader_Read_frame(6) [OF next_chunk(2), where name = name] next_chunk(4,5)
  show ?case by simp
qed simp


lemma started_simps [simp]:
  "started (EvStart argv ok) = ok"
  "\<not> started (EvSetHeader k v)" "\<not> started (EvWriteHeader c)" "\<not> started (EvWrite d b)"
  "\<not> started EvFlush" "\<not> started (EvOpen n)" "\<not> started (EvClose n)"
  "\<not> started (EvMkdirAll n)" "\<not> started (EvStat n)" "\<not> started (EvServeFile n)"
  "\<not> started EvStdoutPipe" "\<not> started (EvCtxDone b)" "\<not> started (EvRead nr err)"
  "\<not> started (EvRemove n)" "\<not> started EvReaderClose" "\<not> started EvKill"
  "\<not> started EvWait" "\<not> started (EvLog m)"
  by (simp_all add: started_def)

lemma pumpRun_not_started: "pumpRun e p i res evs \<Longrightarrow> \<not> list_ex started evs"
  by (induction rule: pumpRun.induct) (auto simp: written_def)

lemma streamStarted_frame:
  "proc (streamStarted e p w) = proc w"
  "\<exists>evs. trace (streamStarted e p w) = trace w @ evs \<and> \<not> list_ex started evs"
proof -
  obtain res w1 where pw: "pump e p 0 w = (res, w1)" by (cases "pump e p 0 w")
  from pump_frame [of e p 0 w] pw show "proc (streamStarted e p w) = proc w"
    by (simp add: streamStarted_def)
  from pump_run [of e p 0 w] pw obtain evs
    where "trace w1 = trace w @ evs" "pumpRun e p 0 res evs" by auto
  with pumpRun_not_started [of e p 0 res evs] pw
  show "\<exists>evs. trace (streamStarted e p w) = trace w @ evs \<and> \<not> list_ex started evs"
    by (auto simp: streamStarted_def)
qed

lemma transcodeFile_cases:
  "transcodeFile e inputFile width outputFile w =
     (if pipeFault e then (True, emit EvStdoutPipe w)
      else if startFault e
      then (True, emit (EvStart (ffmpegArgs inputFile width outputFile) False) (emit EvStdoutPipe w))
      else (False, cmd_Start e (ffmpegArgs inputFile width outputFile) (emit EvStdoutPipe w)))"
  by (simp add: transcodeFile_def Let_def)

lemma encoderOutput_ffmpegArgs [simp]:
  "encoderOutput (ffmpegArgs inputFile width outputFile) = outputFile"
  by (simp add: encoderOutput_def ffmpegArgs_def)

lemma cmd_Start_frame [simp]:
  "proc (cmd_Start e argv w) = Running"
  "trace (cmd_Start e argv w) = trace w @ [EvStart argv True]"
  "outFile (cmd_Start e argv w) = encoderOutput argv"
  "pipe (cmd_Start e argv w)
     = (if creatable e (fs w) (encoderOutput argv) then script e else [])"
  "fs (cmd_Start e argv w)
     = (if creatable e (fs w) (encoderOutput argv)
        then (fs w)(encoderOutput argv \<mapsto> Regular []) else fs w)"
  "aborted (cmd_Start e argv w)
     = (aborted w \<or> \<not> creatable e (fs w) (encoderOutput argv))"
  "rw (cmd_Start e argv w) = rw w"
  by (simp_all add: cmd_Start_def)

lemma defer_frame [simp]:
  "trace (reader_Close w) = trace w @ [EvReaderClose]"
  "proc (reader_Close w) = proc w" "fs (reader_Close w) = fs w" "rw (reader_Close w) = rw w"
  "trace (os_Close n w) = trace w @ [EvClose n]"
  "proc (os_Close n w) = proc w" "fs (os_Close n w) = fs w" "rw (os_Close n w) = rw w"
  "fs (Process_Kill w) = fs w" "rw (Process_Kill w) = rw w"
  "fs (cmd_Wait w) = fs w" "rw (cmd_Wait w) = rw w"
  "trace (cmd_Wait w) = trace w @ [EvWait]"
  by (simp_all add: reader_Close_def os_Close_def Process_Kill_def cmd_Wait_def)

lemma kill_wait_running:
  "proc w = Running \<Longrightarrow> proc (cmd_Wait (Process_Kill w)) = Reaped \<and>
     trace (cmd_Wait (Process_Kill w)) = trace w @ [EvKill, EvWait]"
  by (simp add: Process_Kill_def cmd_Wait_def)

lemma rw_frame [simp]:
  "trace (Header_Set k v w) = trace w @ [EvSetHeader k v]"
  "proc (Header_Set k v w) = proc w" "fs (Header_Set k v w) = fs w"
  "trace (WriteHeader c w) = trace w @ [EvWriteHeader c]"
  "proc (WriteHeader c w) = proc w" "fs (WriteHeader c w) = fs w"
  "trace (ServeFile n w) = trace w @ [EvServeFile n]"
  "proc (ServeFile n w) = proc w" "fs (ServeFile n w) = fs w"
  by (simp_all add: Header_Set_def WriteHeader_def ServeFile_def)

lemma os_MkdirAll_frame:
  assumes "os_MkdirAll e name w = (err, w1)"
  shows "trace w1 = trace w @ [EvMkdirAll name]" and "proc w1 = proc w" and "rw w1 = rw w"
    and "err \<Longrightarrow> fs w1 = fs w"
    and "\<not> err \<Longrightarrow> fs w1 = (fs w)(name \<mapsto> Directory)"
    and "err = (mkdirFault e name \<or> (\<exists>c. fs w name = Some (Regular c)))"
  using assms
  by (auto simp: os_MkdirAll_def split: if_splits option.splits node.splits)

lemma os_Stat_frame:
  assumes "os_Stat e name w = (err, w1)"
  shows "trace w1 = trace w @ [EvStat name]" and "proc w1 = proc w" and "rw w1 = rw w"
    and "fs w1 = fs w"
    and "err = (if statFault e name then Some OtherError
                else if fs w name = None then Some NotExist else None)"
  using assms by (auto simp: os_Stat_def)

lemma os_Open_frame:
  assumes "os_Open e name w = (err, w1)"
  shows "trace w1 = trace w @ [EvOpen name]" and "proc w1 = proc w" and "rw w1 = rw w"
    and "fs w1 = fs w"
    and "err = (if openFault e name then Some OtherError
                else if fs w name = None then Some NotExist else None)"
  using assms by (auto simp: os_Open_def)

lemma streamHeaders_frame [simp]:
  "trace (streamHeaders w) = trace w @ [EvSetHeader ''Content-Type'' ''video/mp4'',
     EvSetHeader ''Transfer-Encoding'' ''chunked'', EvWriteHeader 200]"
  "proc (streamHeaders w) = proc w" "fs (streamHeaders w) = fs w"
  by (simp_all add: streamHeaders_def)

lemma serveOpened_unfold:
  assumes "os_MkdirAll e (canonicalDir config width) w = (mkErr, w1)"
    and "os_Stat e (canonicalPath config width filename) w1 = (stErr, w2)"
  shows "serveOpened e config width filename orig w =
     (if mkErr
      then httpError 500 ''Could not create output directory''
             (emit (EvLog ''Error creating output directory'') w1)
      else if stErr = None then ServeFile (canonicalPath config width filename) w2
      else if stErr \<noteq> Some NotExist
      then httpError 500 ''Internal Server Error''
             (emit (EvLog ''Error stat transcoded file'') w2)
      else if \<not> hasFlusher e then httpError 500 ''Streaming not supported'' w2
      else if pipeFault e
      then httpError 500 ''Failed to start transcoding''
             (emit (EvLog ''Error starting transcoding'') (emit EvStdoutPipe (streamHeaders w2)))
      else if startFault e
      then httpError 500 ''Failed to start transcoding''
             (emit (EvLog ''Error starting transcoding'')
                (emit (EvStart (ffmpegArgs orig width (canonicalPath config width filename)) False)
                   (emit EvStdoutPipe (streamHeaders w2))))
      else cmd_Wait (Process_Kill (reader_Close
             (streamStarted e (canonicalPath config width filename)
                (cmd_Start e (ffmpegArgs orig width (canonicalPath config width filename))
                   (emit EvStdoutPipe (streamHeaders w2)))))))"
  using assms
  by (auto simp: serveOpened_def Let_def transcodeFile_cases canonicalDir_def
        canonicalPath_def streamHeaders_def split: option.splits)

lemma serveOpened_reaps:
  assumes "proc w = NotStarted"
  shows "\<exists>evs. trace (serveOpened e config width filename orig w) = trace w @ evs \<and>
     (if list_ex started evs
      then proc (serveOpened e config width filename orig w) = Reaped
         \<and> (\<exists>pre. evs = pre @ [EvReaderClose, EvKill, EvWait])
      else proc (serveOpened e config width filename orig w) = NotStarted)"
proof -
  let ?dir = "canonicalDir config width"
  let ?p = "canonicalPath config width filename"
  obtain mkErr w1 where mk: "os_MkdirAll e ?dir w = (mkErr, w1)" by (cases "os_MkdirAll e ?dir w")
  note w1 = os_MkdirAll_frame(1,2) [OF mk]
  obtain stErr w2 where st: "os_Stat e ?p w1 = (stErr, w2)" by (cases "os_Stat e ?p w1")
  note w2 = os_Stat_frame(1,2) [OF st]
  note un = serveOpened_unfold [OF mk st, of orig]
  let ?argv = "ffmpegArgs orig width ?p"
  let ?w4 = "cmd_Start e ?argv (emit EvStdoutPipe (streamHeaders w2))"
  consider (gen) "\<not> mkErr" "stErr = Some NotExist" "hasFlusher e" "\<not> pipeFault e" "\<not> startFault e"
    | (other) "mkErr \<or> stErr \<noteq> Some NotExist \<or> \<not> hasFlusher e \<or> pipeFault e \<or> startFault e"
    by blast
  then show ?thesis
  proof cases
    case gen
    from streamStarted_frame [of e ?p ?w4] obtain evs where
      ss: "proc (streamStarted e ?p ?w4) = Running"
          "trace (streamStarted e ?p ?w4) = trace ?w4 @ evs"
      by auto
    from kill_wait_running [of "reader_Close (streamStarted e ?p ?w4)"] ss
    have fin: "proc (cmd_Wait (Process_Kill (reader_Close (streamStarted e ?p ?w4)))) = Reaped"
      "trace (cmd_Wait (Process_Kill (reader_Close (streamStarted e ?p ?w4))))
         = trace ?w4 @ evs @ [EvReaderClose, EvKill, EvWait]"
      by simp_all
    have so: "serveOpened e config width filename orig w
        = cmd_Wait (Process_Kill (reader_Close (streamStarted e ?p ?w4)))"
      using un gen by simp
    let ?evs = "[EvMkdirAll ?dir, EvStat ?p, EvSetHeader ''Content-Type'' ''video/mp4'',
       EvSetHeader ''Transfer-Encoding'' ''chunked'', EvWriteHeader 200, EvStdoutPipe,
       EvStart ?argv True] @ evs @ [EvReaderClose, EvKill, EvWait]"
    have "trace (serveOpened e config width filename orig w) = trace w @ ?evs"
      unfolding so fin using w1 w2 by simp
    moreover have "list_ex started ?evs" by simp
    moreover have "\<exists>pre. ?evs = pre @ [EvReaderClose, EvKill, EvWait]"
      by (metis append.assoc)
    ultimately show ?thesis using fin(1) so by metis
  next
    case other
    then show ?thesis
      using un assms w1 w2
      by (auto split: if_splits)
  qed
qed


lemma handler_not_validated:
  assumes "\<And>width filename. \<not> validated config reqPath width filename"
  shows "\<exists>c m. handleTranscodeRequest e config reqPath w = httpError c m w"
proof (cases "FindStringSubmatch reqPath")
  case None
  then show ?thesis by (auto simp: handleTranscodeRequest_def)
next
  case (Some g)
  obtain widthStr name where g: "g = (widthStr, name)" by (cases g)
  show ?thesis
  proof (cases "Atoi widthStr")
    case (Inl err)
    with Some g show ?thesis by (auto simp: handleTranscodeRequest_def)
  next
    case (Inr width)
    with assms [of width "Clean name"] Some g
    have "\<not> widthFound (Widths config) width \<or> Contains (Clean name) ''../'' \<or> IsAbs (Clean name)"
      by (auto simp: validated_def)
    with Some g Inr show ?thesis
      by (auto simp: handleTranscodeRequest_def Let_def)
  qed
qed

lemma fresh_simps [simp]:
  "trace (freshWorld f) = []" "proc (freshWorld f) = NotStarted" "fs (freshWorld f) = f"
  "\<not> wroteHeader (rw (freshWorld f))" "body (rw (freshWorld f)) = []"
  "served (rw (freshWorld f)) = None"
  by (simp_all add: freshWorld_def freshResponse_def)

lemma streamStarted_fs_frame:
  "name \<noteq> outFile w \<Longrightarrow> name \<noteq> p \<Longrightarrow> fs (streamStarted e p w) name = fs w name"
  using pump_fs_frame [of name w p e 0]
  by (cases "pump e p 0 w") (simp add: streamStarted_def)

lemma serveOpened_dir:
  assumes "\<not> fst (os_MkdirAll e (canonicalDir config width) w)"
  shows "fs (serveOpened e config width filename orig w) (canonicalDir config width) = Some Directory"
proof -
  let ?dir = "canonicalDir config width"
  let ?p = "canonicalPath config width filename"
  obtain mkErr w1 where mk: "os_MkdirAll e ?dir w = (mkErr, w1)" by (cases "os_MkdirAll e ?dir w")
  with assms have ok: "\<not> mkErr" by simp
  note w1 = os_MkdirAll_frame(5) [OF mk ok]
  obtain stErr w2 where st: "os_Stat e ?p w1 = (stErr, w2)" by (cases "os_Stat e ?p w1")
  note w2 = os_Stat_frame(4,5) [OF st]
  note un = serveOpened_unfold [OF mk st, of orig]
  let ?w4 = "cmd_Start e (ffmpegArgs orig width ?p) (emit EvStdoutPipe (streamHeaders w2))"
  have d: "fs w2 ?dir = Some Directory" using w1 w2 by simp
  show ?thesis
  proof (cases "stErr = Some NotExist")
    case True
    with w2(2) have "fs w1 ?p = None" by (auto split: if_splits)
    with w1 have ne: "?dir \<noteq> ?p" by auto
    then have "fs ?w4 ?dir = Some Directory"
      using d by simp
    moreover have "fs (streamStarted e ?p ?w4) ?dir = fs ?w4 ?dir"
      using ne by (intro streamStarted_fs_frame) simp_all
    ultimately show ?thesis
      using un ok True d by simp
  next
    case False
    with un ok d show ?thesis by simp
  qed
qed

lemma handler_cache_hit:
  assumes "validated config reqPath width filename"
    and "\<not> openFault e (sourcePath config filename)"
    and "g (sourcePath config filename) \<noteq> None"
    and "\<not> mkdirFault e (canonicalDir config width)"
    and "\<And>c. g (canonicalDir config width) \<noteq> Some (Regular c)"
    and "\<not> statFault e (canonicalPath config width filename)"
    and "(g(canonicalDir config width \<mapsto> Directory)) (canonicalPath config width filename) \<noteq> None"
  shows "handleTranscodeRequest e config reqPath (freshWorld g) =
     os_Close (sourcePath config filename)
       (ServeFile (canonicalPath config width filename)
          (emit (EvStat (canonicalPath config width filename))
             (emit (EvMkdirAll (canonicalDir config width))
                ((emit (EvOpen (sourcePath config filename)) (freshWorld g))
                   \<lparr>fs := g(canonicalDir config width \<mapsto> Directory)\<rparr>))))"
proof -
  let ?src = "sourcePath config filename"
  let ?dir = "canonicalDir config width"
  let ?p = "canonicalPath config width filename"
  let ?w0 = "emit (EvOpen ?src) (freshWorld g)"
  let ?w1 = "emit (EvMkdirAll ?dir) (?w0\<lparr>fs := g(?dir \<mapsto> Directory)\<rparr>)"
  have op: "os_Open e ?src (freshWorld g) = (None, ?w0)"
    using assms(2,3) by (simp add: os_Open_def)
  have mk: "os_MkdirAll e ?dir ?w0 = (False, ?w1)"
  proof (cases "g ?dir")
    case None
    with assms(4) show ?thesis by (simp add: os_MkdirAll_def)
  next
    case (Some n)
    with assms(5) have n: "n = Directory" by (cases n) auto
    with Some have "g(?dir \<mapsto> Directory) = g" by (simp add: fun_upd_idem)
    then have "?w0\<lparr>fs := g(?dir \<mapsto> Directory)\<rparr> = ?w0" by (simp add: emit_def freshWorld_def)
    with assms(4) Some n show ?thesis by (simp add: os_MkdirAll_def)
  qed
  have st: "os_Stat e ?p ?w1 = (None, emit (EvStat ?p) ?w1)"
    using assms(6,7) by (simp add: os_Stat_def emit_def)
  from handler_validated [OF assms(1), of e "freshWorld g"] op
    serveOpened_unfold [OF mk st, of ?src]
  show ?thesis by simp
qed

lemma cache_hit_result:
  assumes "w' = os_Close src (ServeFile p (emit (EvStat p) (emit (EvMkdirAll dir)
             ((emit (EvOpen src) (freshWorld g))\<lparr>fs := g'\<rparr>))))"
  shows "served (rw w') = Some (p, g' p)"
    and "trace w' = [EvOpen src, EvMkdirAll dir, EvStat p, EvServeFile p, EvClose src]"
    and "proc w' = NotStarted" and "fs w' = g'" and "\<not> wroteHeader (rw w')"
  unfolding assms
  by (simp_all add: os_Close_def ServeFile_def emit_def freshWorld_def freshResponse_def)

lemma cleanEOF_simps [simp]:
  "cleanEOF (EvRead nr err) = (err = Some EOF)"
  "\<not> cleanEOF (EvSetHeader k v)" "\<not> cleanEOF (EvWriteHeader c)" "\<not> cleanEOF (EvWrite d b)"
  "\<not> cleanEOF EvFlush" "\<not> cleanEOF (EvOpen n)" "\<not> cleanEOF (EvClose n)"
  "\<not> cleanEOF (EvMkdirAll n)" "\<not> cleanEOF (EvStat n)" "\<not> cleanEOF (EvServeFile n)"
  "\<not> cleanEOF EvStdoutPipe" "\<not> cleanEOF (EvCtxDone b)" "\<not> cleanEOF (EvStart argv ok)"
  "\<not> cleanEOF (EvRemove n)" "\<not> cleanEOF EvReaderClose" "\<not> cleanEOF EvKill"
  "\<not> cleanEOF EvWait" "\<not> cleanEOF (EvLog m)"
  by (simp_all add: cleanEOF_def)

lemma pumpRun_ReadError_no_eof:
  "pumpRun e p i res evs \<Longrightarrow> res = ReadError \<Longrightarrow> \<not> list_ex cleanEOF evs"
  by (induction rule: pumpRun.induct) (auto simp: written_def)

lemma reader_Read_keeps_regular:
  assumes "reader_Read n w = (d, err, w1)" and "fs w (outFile w) = Some (Regular c)"
  shows "\<exists>c'. fs w1 (outFile w) = Some (Regular c')"
  using assms
  by (auto simp: reader_Read_def Let_def appendFile_def split: list.splits if_splits)

lemma pump_keeps_file:
  "(\<exists>c. fs w (outFile w) = Some (Regular c)) \<longrightarrow> fst (pump e p i w) \<noteq> ReadError
   \<longrightarrow> (\<exists>c. fs (snd (pump e p i w)) (outFile w) = Some (Regular c))"
proof (induction i w rule: pump_cases [where e = e and p = p])
  case (write_error i w d err w1)
  from reader_Read_keeps_regular [OF write_error(2)] show ?case by auto
next
  case (clean_eof i w d w1 w2)
  from reader_Read_keeps_regular [OF clean_eof(2)] clean_eof(4) show ?case by auto
next
  case (next_chunk i w d w1 w2)
  from reader_Read_keeps_regular [OF next_chunk(2)] reader_Read_frame(5) [OF next_chunk(2)]
    next_chunk(4,5)
  show ?case by auto
qed simp_all

lemma streamStarted_keeps_file:
  assumes "fs w (outFile w) = Some (Regular c)"
    and "list_ex cleanEOF (drop (length (trace w)) (trace (streamStarted e p w)))"
  shows "\<exists>c'. fs (streamStarted e p w) (outFile w) = Some (Regular c')"
proof -
  obtain res w1 where pw: "pump e p 0 w = (res, w1)" by (cases "pump e p 0 w")
  from pump_run [of e p 0 w] pw obtain evs where
    evs: "trace w1 = trace w @ evs" "pumpRun e p 0 res evs" by auto
  from assms(2) pw evs(1) have "list_ex cleanEOF evs"
    by (auto simp: streamStarted_def split: if_splits)
  with pumpRun_ReadError_no_eof [OF evs(2)] have "res \<noteq> ReadError" by blast
  with pump_keeps_file [of w e p 0] pw assms(1) show ?thesis
    by (auto simp: streamStarted_def)
qed

lemmas event_tests = isRead_def isWrite_def endedRead_def boundedChunk_def failedWrite_def
  cleanEOF_def

lemma pumpRun_shape:
  assumes "pumpRun e p i res evs"
  shows "list_all boundedChunk evs \<and> flushedWrites evs \<and> checkedReads prev evs
       \<and> stopsWhenDone evs \<and> noRetry evs
       \<and> (res = Completed) = (list_ex cleanEOF evs \<and> \<not> list_ex failedWrite evs)
       \<and> (res = Cancelled) = (last evs = EvCtxDone True)
       \<and> evs \<noteq> []"
  using assms
proof (induction arbitrary: prev rule: pumpRun.induct)
  case (next_chunk i d res evs)
  from next_chunk.IH [of "EvRead (length d) None"] next_chunk.IH [of EvFlush] next_chunk.hyps(2)
  show ?case
    by (auto simp: written_def event_tests)
qed (auto simp: written_def event_tests)

lemma aborted_frame [simp]:
  "aborted (Write b d w) = aborted w" "aborted (Flush w) = aborted w"
  "aborted (os_Remove n w) = aborted w" "aborted (reader_Close w) = aborted w"
  "aborted (Process_Kill w) = aborted w" "aborted (cmd_Wait w) = aborted w"
  "aborted (os_Close n w) = aborted w" "aborted (streamHeaders w) = aborted w"
  "aborted (httpError c m w) = aborted w" "aborted (ServeFile n w) = aborted w"
  "\<not> aborted (freshWorld f)"
  by (simp_all add: Write_def Flush_def os_Remove_def reader_Close_def Process_Kill_def
        cmd_Wait_def os_Close_def streamHeaders_def httpError_def ServeFile_def
        WriteHeader_def Header_Set_def freshWorld_def Let_def)

lemma body_frame [simp]:
  "body (rw (Write b d w)) = (if b then body (rw w) else body (rw w) @ d)"
  "body (rw (streamHeaders w)) = body (rw w)"
  by (simp_all add: Write_def streamHeaders_def WriteHeader_def Header_Set_def Let_def
        commitHeader_def)

lemma os_call_aborted:
  "os_Open e n w = (oe, w1) \<Longrightarrow> aborted w1 = aborted w"
  "os_MkdirAll e n w = (me, w2) \<Longrightarrow> aborted w2 = aborted w"
  "os_Stat e n w = (se, w3) \<Longrightarrow> aborted w3 = aborted w"
  by (auto simp: os_Open_def os_MkdirAll_def os_Stat_def split: if_splits option.splits node.splits)

lemma reader_Read_step:
  assumes "reader_Read n w = (d, err, w1)"
  shows "aborted w1 = aborted w"
    and "concat (map live (pipe w)) = d @ concat (map live (pipe w1))"
    and "fs w (outFile w) = Some (Regular c) \<Longrightarrow>
         \<exists>a. fs w1 (outFile w) = Some (Regular (c @ a))
            \<and> concat (map disk (emitted (pipe w)))
                = a @ (if err = None then concat (map disk (emitted (pipe w1))) else [])
            \<and> concat (map live (emitted (pipe w)))
                = d @ (if err = None then concat (map live (emitted (pipe w1))) else [])"
  using assms
  by (auto simp: reader_Read_def Let_def appendFile_def split: list.splits if_splits)

lemma pump_aborted: "aborted (snd (pump e p i w)) = aborted w"
proof (induction i w rule: pump_cases [where e = e and p = p])
  case (write_error i w d err w1)
  from reader_Read_step(1) [OF write_error(2)] show ?case by simp
next
  case (clean_eof i w d w1 w2)
  from reader_Read_step(1) [OF clean_eof(2)] clean_eof(4) show ?case by simp
next
  case (read_error i w d w1 w2)
  from reader_Read_step(1) [OF read_error(2)] read_error(4) show ?case by simp
next
  case (next_chunk i w d w1 w2)
  from reader_Read_step(1) [OF next_chunk(2)] next_chunk(4,5) show ?case by simp
qed simp

lemma pump_completed_totals:
  "\<forall>c. fs w (outFile w) = Some (Regular c) \<longrightarrow> fst (pump e p i w) = Completed
     \<longrightarrow> fs (snd (pump e p i w)) (outFile w)
           = Some (Regular (c @ concat (map disk (emitted (pipe w)))))
       \<and> body (rw (snd (pump e p i w)))
           = body (rw w) @ concat (map live (emitted (pipe w)))"
proof (induction i w rule: pump_cases [where e = e and p = p])
  case (clean_eof i w d w1 w2)
  show ?case
  proof (intro allI impI)
    fix c assume c: "fs w (outFile w) = Some (Regular c)"
    from reader_Read_step(3) [OF clean_eof(2), of c] c reader_Read_frame(3) [OF clean_eof(2)]
      clean_eof(3,4)
    show "fs (snd (Completed, w2)) (outFile w)
           = Some (Regular (c @ concat (map disk (emitted (pipe w)))))
       \<and> body (rw (snd (Completed, w2)))
           = body (rw w) @ concat (map live (emitted (pipe w)))"
      by auto
  qed
next
  case (next_chunk i w d w1 w2)
  let ?j = "if d \<noteq> [] then i + 4 else i + 2"
  show ?case
  proof (intro allI impI)
    fix c assume c: "fs w (outFile w) = Some (Regular c)"
      and cmpl: "fst (pump e p ?j w2) = Completed"
    from reader_Read_step(3) [OF next_chunk(2), of c] c obtain a where
      a: "fs w1 (outFile w) = Some (Regular (c @ a))"
         "concat (map disk (emitted (pipe w))) = a @ concat (map disk (emitted (pipe w1)))"
         "concat (map live (emitted (pipe w))) = d @ concat (map live (emitted (pipe w1)))"
      by auto
    note fr = reader_Read_frame(3,5) [OF next_chunk(2)]
    have w2: "fs w2 = fs w1" "outFile w2 = outFile w" "pipe w2 = pipe w1"
      "body (rw w2) = body (rw w) @ d"
      using next_chunk(3,4) fr by auto
    from next_chunk(5) [rule_format, of "c @ a"] a(1) w2 cmpl
    have "fs (snd (pump e p ?j w2)) (outFile w)
           = Some (Regular ((c @ a) @ concat (map disk (emitted (pipe w1)))))
       \<and> body (rw (snd (pump e p ?j w2)))
           = (body (rw w) @ d) @ concat (map live (emitted (pipe w1)))"
      by simp
    with a(2,3)
    show "fs (snd (pump e p ?j w2)) (outFile w)
           = Some (Regular (c @ concat (map disk (emitted (pipe w)))))
       \<and> body (rw (snd (pump e p ?j w2)))
           = body (rw w) @ concat (map live (emitted (pipe w)))"
      by simp
  qed
qed simp_all

lemma failedWrite_simps [simp]:
  "failedWrite (EvWrite d b) = (\<not> b)"
  "\<not> failedWrite (EvSetHeader k v)" "\<not> failedWrite (EvWriteHeader c)" "\<not> failedWrite (EvRead nr err)"
  "\<not> failedWrite EvFlush" "\<not> failedWrite (EvOpen n)" "\<not> failedWrite (EvClose n)"
  "\<not> failedWrite (EvMkdirAll n)" "\<not> failedWrite (EvStat n)" "\<not> failedWrite (EvServeFile n)"
  "\<not> failedWrite EvStdoutPipe" "\<not> failedWrite (EvCtxDone b)" "\<not> failedWrite (EvStart argv ok)"
  "\<not> failedWrite (EvRemove n)" "\<not> failedWrite EvReaderClose" "\<not> failedWrite EvKill"
  "\<not> failedWrite EvWait" "\<not> failedWrite (EvLog m)"
  by (simp_all add: failedWrite_def)

lemma streamStarted_completed:
  assumes "fs w (outFile w) = Some (Regular c)"
    and "trace (streamStarted e p w) = trace w @ evs"
    and "list_ex cleanEOF evs" and "\<not> list_ex failedWrite evs"
  shows "fs (streamStarted e p w) (outFile w)
           = Some (Regular (c @ concat (map disk (emitted (pipe w)))))"
    and "body (rw (streamStarted e p w)) = body (rw w) @ concat (map live (emitted (pipe w)))"
    and "aborted (streamStarted e p w) = aborted w"
proof -
  obtain res w1 where pw: "pump e p 0 w = (res, w1)" by (cases "pump e p 0 w")
  from pump_run [of e p 0 w] pw obtain evs0 where
    evs0: "trace w1 = trace w @ evs0" "pumpRun e p 0 res evs0" by auto
  from pumpRun_shape [OF evs0(2), of EvFlush]
  have sh: "(res = Completed) = (list_ex cleanEOF evs0 \<and> \<not> list_ex failedWrite evs0)" by blast
  have "res = Completed"
  proof (cases "res = Cancelled")
    case True
    with assms(2) pw evs0(1)
    have "evs = evs0 @ [EvLog ''Client disconnected or request cancelled. Cleaning up...'']"
      by (simp add: streamStarted_def)
    with assms(3,4) sh show ?thesis by simp
  next
    case False
    with assms(2) pw evs0(1) have "evs = evs0" by (simp add: streamStarted_def)
    with assms(3,4) sh show ?thesis by simp
  qed
  with pump_completed_totals [of w e p 0] pump_aborted [of e p 0 w] pw assms(1)
  show "fs (streamStarted e p w) (outFile w)
           = Some (Regular (c @ concat (map disk (emitted (pipe w)))))"
    and "body (rw (streamStarted e p w)) = body (rw w) @ concat (map live (emitted (pipe w)))"
    and "aborted (streamStarted e p w) = aborted w"
    by (simp_all add: streamStarted_def)
qed

lemma streamStarted_aborted: "aborted (streamStarted e p w) = aborted w"
  using pump_aborted [of e p 0 w] by (cases "pump e p 0 w") (simp add: streamStarted_def)

lemma generation_only:
  assumes v: "validated config reqPath width filename"
    and g: "generated (handleTranscodeRequest e config reqPath (freshWorld f))"
  shows "\<not> openFault e (sourcePath config filename) \<and> f (sourcePath config filename) \<noteq> None
       \<and> \<not> mkdirFault e (canonicalDir config width)
       \<and> \<not> statFault e (canonicalPath config width filename)
       \<and> fs (handleTranscodeRequest e config reqPath (freshWorld f))
            (canonicalPath config width filename)
           = Some (Regular (concat (map disk (emitted (script e)))))
       \<and> body (rw (handleTranscodeRequest e config reqPath (freshWorld f)))
           = concat (map live (emitted (script e)))
       \<and> fs (handleTranscodeRequest e config reqPath (freshWorld f)) (canonicalDir config width)
           = Some Directory
       \<and> fs (handleTranscodeRequest e config reqPath (freshWorld f)) (sourcePath config filename)
           \<noteq> None"
proof -
  let ?src = "sourcePath config filename"
  let ?dir = "canonicalDir config width"
  let ?p = "canonicalPath config width filename"
  let ?h = "handleTranscodeRequest e config reqPath (freshWorld f)"
  from g have ge: "list_ex cleanEOF (trace ?h)" and gw: "\<not> list_ex failedWrite (trace ?h)"
    and ga: "\<not> aborted ?h"
    by (simp_all add: generated_def)
  obtain oErr w0 where op: "os_Open e ?src (freshWorld f) = (oErr, w0)"
    by (cases "os_Open e ?src (freshWorld f)")
  note w0 = os_Open_frame [OF op]
  note hv = handler_validated [OF v, of e "freshWorld f"]
  have oErr: "oErr = None"
  proof (rule ccontr)
    assume "oErr \<noteq> None"
    then obtain err where "oErr = Some err" by auto
    with hv op w0(1) have "\<not> list_ex cleanEOF (trace ?h)"
      by (cases "err = NotExist") simp_all
    with ge show False by simp
  qed
  with w0(5) have src: "\<not> openFault e ?src" "f ?src \<noteq> None"
    by (auto split: if_splits)
  have h: "?h = os_Close ?src (serveOpened e config width filename ?src w0)"
    using hv op oErr by simp
  obtain mkErr w1 where mk: "os_MkdirAll e ?dir w0 = (mkErr, w1)"
    by (cases "os_MkdirAll e ?dir w0")
  note w1 = os_MkdirAll_frame [OF mk]
  obtain stErr w2 where st: "os_Stat e ?p w1 = (stErr, w2)" by (cases "os_Stat e ?p w1")
  note w2 = os_Stat_frame [OF st]
  note un = serveOpened_unfold [OF mk st, of ?src]
  let ?w3 = "emit EvStdoutPipe (streamHeaders w2)"
  let ?w4 = "cmd_Start e (ffmpegArgs ?src width ?p) ?w3"
  have gen: "\<not> mkErr \<and> stErr = Some NotExist \<and> hasFlusher e \<and> \<not> pipeFault e \<and> \<not> startFault e"
  proof (rule ccontr)
    assume "\<not> ?thesis"
    then have "\<not> list_ex cleanEOF (trace (serveOpened e config width filename ?src w0))"
      using un w0(1) w1(1) w2(1) by (auto split: if_splits)
    with ge h show False by simp
  qed
  then have so: "serveOpened e config width filename ?src w0
      = cmd_Wait (Process_Kill (reader_Close (streamStarted e ?p ?w4)))"
    using un by simp
  from gen w1(6) w0(4) have mkd: "\<not> mkdirFault e ?dir" by simp
  from gen w2(5) have stf: "\<not> statFault e ?p" "fs w1 ?p = None"
    by (auto split: if_splits)
  from gen w1(5) w0(4) have fs1: "fs w1 = f(?dir \<mapsto> Directory)" by simp
  with stf(2) have ne_dir: "?dir \<noteq> ?p" by auto
  from fs1 stf(2) src(2) have ne_src: "?src \<noteq> ?p" by (auto split: if_splits)
  \<comment> \<open>the encoder could create its file\<close>
  have "aborted ?w3 = aborted (freshWorld f)"
    using os_call_aborted(1) [OF op] os_call_aborted(2) [OF mk] os_call_aborted(3) [OF st]
    by simp
  then have na3: "\<not> aborted ?w3" by simp
  from ga have "\<not> aborted ?w4"
    unfolding h so by (simp add: streamStarted_aborted)
  with na3 have cr: "creatable e (fs ?w3) ?p" by simp
  have fs4: "fs ?w4 = (fs w1)(?p \<mapsto> Regular [])" and pipe4: "pipe ?w4 = script e"
    using w2(4) cr by simp_all
  have out4: "outFile ?w4 = ?p" by simp
  have body4: "body (rw ?w4) = []"
    using w2(3) w1(3) w0(3) by simp
  \<comment> \<open>the events of the stream\<close>
  from streamStarted_frame(2) [of e ?p ?w4] obtain evs where
    evs: "trace (streamStarted e ?p ?w4) = trace ?w4 @ evs" by blast
  have "trace ?h = trace ?w4 @ evs @ [EvReaderClose, EvKill, EvWait, EvClose ?src]"
    unfolding h so using evs streamStarted_frame(1) [of e ?p ?w4]
    by (simp add: Process_Kill_def)
  with ge gw w0(1) w1(1) w2(1) have ev: "list_ex cleanEOF evs" "\<not> list_ex failedWrite evs"
    by simp_all
  have f4: "fs ?w4 (outFile ?w4) = Some (Regular [])" using fs4 out4 by simp
  note fin = streamStarted_completed(1,2) [OF f4 evs ev]
  have "fs (streamStarted e ?p ?w4) ?dir = fs ?w4 ?dir"
    using ne_dir by (intro streamStarted_fs_frame) simp_all
  then have dir: "fs (streamStarted e ?p ?w4) ?dir = Some Directory"
    using fs4 fs1 ne_dir by simp
  have "fs (streamStarted e ?p ?w4) ?src = fs ?w4 ?src"
    using ne_src by (intro streamStarted_fs_frame) simp_all
  then have s: "fs (streamStarted e ?p ?w4) ?src \<noteq> None"
    using fs4 fs1 ne_src src(2) by simp
  from src mkd stf(1) fin dir s pipe4 body4 out4 show ?thesis
    unfolding h so by simp
qed

lemma reader_Read_expected:
  assumes "reader_Read n w = (d, err, w1)" and "0 < n"
  shows "\<exists>tl. expectedReads n (pipe w) = (length d, err) # tl
            \<and> (err = None \<longrightarrow> tl = expectedReads n (pipe w1))"
proof (cases "pipe w")
  case Nil
  with assms show ?thesis by (auto simp: reader_Read_def)
next
  case (Cons s rest)
  show ?thesis
  proof (cases "length (live s) \<le> n")
    case True
    then have "chunkReads n (length (live s)) (lerr s) = [(length (live s), lerr s)]"
      by (subst chunkReads.simps) simp
    with assms Cons True show ?thesis by (auto simp: reader_Read_def Let_def)
  next
    case False
    with assms(2) have "chunkReads n (length (live s)) (lerr s)
        = (n, None) # chunkReads n (length (live s) - n) (lerr s)"
      by (subst chunkReads.simps) simp
    with assms Cons False show ?thesis by (auto simp: reader_Read_def Let_def)
  qed
qed

lemma calls_append [simp]:
  "reads (xs @ ys) = reads xs @ reads ys"
  "offered (xs @ ys) = offered xs @ offered ys"
  "delivered (xs @ ys) = delivered xs @ delivered ys"
  "onClock e c (xs @ ys) = (onClock e c xs \<and> onClock e (c + length xs) ys)"
  "lateWrites e c (xs @ ys) = lateWrites e c xs + lateWrites e (c + length xs) ys"
  by (induction xs arbitrary: c) simp_all

lemma calls_written [simp]:
  "reads (written d) = []" "offered (written d) = d" "delivered (written d) = d"
  "length (written d) = (if d = [] then 0 else 2)"
  "onClock e c (written d) = (d = [] \<or> \<not> writeFails e c)"
  "lateWrites e c (written d) = (if d \<noteq> [] \<and> cancelled e c then 1 else 0)"
  by (simp_all add: written_def isWrite_def)

lemma cancelled_mono: "cancelled e c \<Longrightarrow> c \<le> c' \<Longrightarrow> cancelled e c'"
  by (simp add: cancelled_def split: option.splits)


lemma calls_head [simp]:
  "onClock e i (EvCtxDone b # EvRead n err # rest) = (b = cancelled e i \<and> onClock e (i + 2) rest)"
  "lateWrites e i (EvCtxDone b # EvRead n err # rest) = lateWrites e (i + 2) rest"
  "onClock e i (EvWrite d ok # ev # rest)
     = (ok = (\<not> writeFails e i) \<and> onClock e (Suc i) (ev # rest))"
  by (simp_all add: isWrite_def)

lemma calls_written_then:
  "onClock e c (written d @ evs)
     = ((d = [] \<or> \<not> writeFails e c) \<and> onClock e (if d \<noteq> [] then c + 2 else c) evs)"
  "lateWrites e c (written d @ evs)
     = (if d \<noteq> [] \<and> cancelled e c then 1 else 0)
       + lateWrites e (if d \<noteq> [] then c + 2 else c) evs"
  by (simp_all add: written_def isWrite_def)

lemma pump_carries:
  "\<exists>evs. trace (snd (pump e p i w)) = trace w @ evs \<and> pumpRun e p i (fst (pump e p i w)) evs
       \<and> carries e i w (snd (pump e p i w)) evs"
proof (induction i w rule: pump_cases [where e = e and p = p])
  case (ctx_done i w)
  then have "pumpRun e p i Cancelled [EvCtxDone True]"
    by (rule pumpRun.ctx_done)
  with ctx_done show ?case by (simp add: carries_def isWrite_def)
next
  case (write_error i w d err w1)
  note fr = reader_Read_frame(1,2,3) [OF write_error(2)]
  note st = reader_Read_step(2) [OF write_error(2)]
  from reader_Read_expected [OF write_error(2)] obtain tl where
    tl: "expectedReads (16 * 1024) (pipe w) = (length d, err) # tl" by auto
  from write_error(1,3) fr(2) write_error(4)
  have "pumpRun e p i WriteError
          [EvCtxDone False, EvRead (length d) err, EvWrite d False,
           EvLog ''Error writing to client'']"
    by (rule pumpRun.write_error)
  with fr(1,3) st tl write_error(1,4) show ?case
    by (simp add: carries_def isWrite_def)
next
  case (clean_eof i w d w1 w2)
  note fr = reader_Read_frame(1,2,3) [OF clean_eof(2)]
  note st = reader_Read_step(2) [OF clean_eof(2)]
  from reader_Read_expected [OF clean_eof(2)] obtain tl where
    tl: "expectedReads (16 * 1024) (pipe w) = (length d, Some EOF) # tl" by auto
  from clean_eof(1) fr(2) clean_eof(3)
  have "pumpRun e p i Completed ([EvCtxDone False, EvRead (length d) (Some EOF)] @ written d)"
    by (rule pumpRun.clean_eof)
  with trace_chunk [OF clean_eof(2)] clean_eof(1,3,4) fr(3) st tl show ?case
    by (auto simp: carries_def isWrite_def)
next
  case (read_error i w d w1 w2)
  note fr = reader_Read_frame(1,2,3) [OF read_error(2)]
  note st = reader_Read_step(2) [OF read_error(2)]
  from reader_Read_expected [OF read_error(2)] obtain tl where
    tl: "expectedReads (16 * 1024) (pipe w) = (length d, Some ReadFailure) # tl" by auto
  from read_error(1) fr(2) read_error(3)
  have "pumpRun e p i ReadError
          ([EvCtxDone False, EvRead (length d) (Some ReadFailure)] @ written d
           @ [EvRemove p, EvLog ''Error reading transcoded data''])"
    by (rule pumpRun.read_error)
  with trace_chunk [OF read_error(2)] read_error(1,3,4) fr(3) st tl show ?case
    by (auto simp: carries_def isWrite_def)
next
  case (next_chunk i w d w1 w2)
  let ?j = "if d \<noteq> [] then i + 4 else i + 2"
  note fr = reader_Read_frame(1,2,3) [OF next_chunk(2)]
  note st = reader_Read_step(2) [OF next_chunk(2)]
  from reader_Read_expected [OF next_chunk(2)]
  have tl: "expectedReads (16 * 1024) (pipe w)
      = (length d, None) # expectedReads (16 * 1024) (pipe w1)" by auto
  from next_chunk(5) obtain evs where evs: "trace (snd (pump e p ?j w2)) = trace w2 @ evs"
      "pumpRun e p ?j (fst (pump e p ?j w2)) evs"
      "carries e ?j w2 (snd (pump e p ?j w2)) evs"
    by blast
  from next_chunk(1) fr(2) next_chunk(3) evs(2)
  have run: "pumpRun e p i (fst (pump e p ?j w2))
          ([EvCtxDone False, EvRead (length d) None] @ written d @ evs)"
    by (rule pumpRun.next_chunk)
  have w2: "pipe w2 = pipe w1" "body (rw w2) = body (rw w) @ d"
    using next_chunk(3,4) fr(3) by auto
  have n4: "Suc (Suc (Suc (Suc i))) = i + 4" by simp
  have late: "d \<noteq> [] \<Longrightarrow> cancelled e (i + 2) \<Longrightarrow> lateWrites e (i + 4) evs = 0"
    using evs(3) cancelled_mono [of e "i + 2" "i + 4"] by (simp add: carries_def)
  have "carries e i w (snd (pump e p ?j w2))
          ([EvCtxDone False, EvRead (length d) None] @ written d @ evs)"
    using evs(3) w2 tl st next_chunk(1,3) late
    by (auto simp: carries_def isWrite_def calls_written_then n4 split: if_splits)
  with run trace_chunk [OF next_chunk(2)] next_chunk(4) evs(1) show ?case by simp
qed

lemmas run_defs =
  handleTranscodeRequest_def serveOpened_def streamStarted_def pump.simps transcodeFile_def
  cmd_Start_def reader_Read_def reader_Close_def Process_Kill_def cmd_Wait_def
  os_Open_def os_Close_def os_MkdirAll_def os_Stat_def os_Remove_def ServeFile_def
  httpError_def Write_def WriteHeader_def Header_Set_def Flush_def commitHeader_def emit_def
  creatable_def Dir_def appendFile_def encoderOutput_def ffmpegArgs_def cancelled_def writeFails_def
  FindStringSubmatch_def isDigit_def Atoi_def digitVal_def minInt_def maxInt_def
  Itoa_def natDigits.simps digitChar_def Clean_def Join_def IsAbs_def
  freshWorld_def freshResponse_def exConfig_def exFs_def exEnv_def Let_def

lemmas ex_defs = exCached_def exOrphan_def exNoMkdir_def exNoEncoder_def exCancelled_def
  exDenied_def exUnreadable_def exLate_def
  validated_def sourcePath_def canonicalDir_def canonicalPath_def generated_def
  cleanEOF_def failedWrite_def started_def

lemma ex_validated: "validated exConfig ''/480p/movie.mp4'' 480 ''movie.mp4''"
  by (simp add: run_defs ex_defs)

lemma ex_paths:
  "sourcePath exConfig ''movie.mp4'' = ''/in/movie.mp4''"
  "canonicalDir exConfig 480 = ''/out/480''"
  "canonicalPath exConfig 480 ''movie.mp4'' = ''/out/480/movie.mp4''"
  by (simp_all add: run_defs ex_defs)

section \<open>Width validation\<close>

text \<open>Claim C6. A request whose path matches the route pattern and whose width, read as
  a decimal number, is not one of the configured widths is answered with status 400 and
  the plain-text body \<^verbatim>\<open>Invalid Width\<close>, whatever the filename part is. Nothing but
  the response is touched: the file system and the process state are unchanged and the
  trace gains the three calls of \<^verbatim>\<open>httpError\<close> only.\<close>

theorem invalid_width_400:
  assumes "FindStringSubmatch reqPath = Some (widthStr, name)"
    and "int (digitsVal 0 widthStr) \<notin> set (Widths config)"
    and "\<not> wroteHeader (rw w)"
  shows "status (rw (handleTranscodeRequest e config reqPath w)) = 400
       \<and> sentHeader (rw (handleTranscodeRequest e config reqPath w)) ''Content-Type''
           = Some ''text/plain; charset=utf-8''
       \<and> body (rw (handleTranscodeRequest e config reqPath w)) = body (rw w) @ ''Invalid Width''
       \<and> served (rw (handleTranscodeRequest e config reqPath w)) = served (rw w)
       \<and> fs (handleTranscodeRequest e config reqPath w) = fs w
       \<and> proc (handleTranscodeRequest e config reqPath w) = proc w
       \<and> trace (handleTranscodeRequest e config reqPath w)
           = trace w @ [EvSetHeader ''Content-Type'' ''text/plain; charset=utf-8'',
                        EvWriteHeader 400, EvWrite ''Invalid Width'' True]"
proof -
  from assms(1) have g: "widthStr \<noteq> []" "list_all isDigit widthStr"
    using FindStringSubmatch_groups by blast+
  have "handleTranscodeRequest e config reqPath w = httpError 400 ''Invalid Width'' w"
    using assms(1,2) Atoi_digits [OF g]
    by (simp add: handleTranscodeRequest_def widthFound_iff)
  with assms(3) show ?thesis
    by (simp add: httpError_fresh)
qed

theorem invalid_width_400_witness:
  "FindStringSubmatch ''/360p/movie.mp4'' = Some (''360'', ''movie.mp4'')
   \<and> int (digitsVal 0 ''360'') \<notin> set (Widths exConfig)
   \<and> \<not> wroteHeader (rw (freshWorld exFs))
   \<and> status (rw (handleTranscodeRequest exEnv exConfig ''/360p/movie.mp4'' (freshWorld exFs)))
       = 400
   \<and> fs (handleTranscodeRequest exEnv exConfig ''/360p/movie.mp4'' (freshWorld exFs)) = exFs"
proof -
  have a: "FindStringSubmatch ''/360p/movie.mp4'' = Some (''360'', ''movie.mp4'')"
    by (simp add: FindStringSubmatch_def isDigit_def)
  have b: "int (digitsVal 0 ''360'') \<notin> set (Widths exConfig)"
    by (simp add: digitVal_def exConfig_def)
  have c: "\<not> wroteHeader (rw (freshWorld exFs))"
    by (simp add: freshWorld_def freshResponse_def)
  from invalid_width_400 [OF a b c, of exEnv] a b c show ?thesis
    by (simp add: freshWorld_def)
qed

section \<open>The stream pump\<close>

text \<open>Claim C8 as stated fails in one part: the pump does issue a write after the
  cancellation signal is set. It looks at the signal only before a read. When the signal
  becomes set after that check, while the first read of \<^verbatim>\<open>/480p/movie.mp4\<close> is pending,
  the chunk that read returns is still written to the client and flushed; the pump
  stops at its next check.\<close>

theorem write_after_signal_counterexample:
  "let r = pump exLate ''/out/480/movie.mp4'' 0 exStarted
   in cancelAt exLate = Some 1
    \<and> \<not> cancelled exLate 0 \<and> cancelled exLate 2
    \<and> trace (snd r) = [EvCtxDone False, EvRead 2 None, EvWrite ''ab'' True, EvFlush,
                        EvCtxDone True]
    \<and> lateWrites exLate 0 (trace (snd r)) = 1
    \<and> body (rw (snd r)) = ''ab''
    \<and> fst r = Cancelled"
  by (simp add: pump.simps exStarted_def exLate_def exEnv_def freshWorld_def freshResponse_def
        cancelled_def writeFails_def reader_Read_def Let_def Write_def Flush_def emit_def
        appendFile_def commitHeader_def isWrite_def)

text \<open>Claim C8, as amended. The calls the stream pump adds to the trace, from any
  iteration and any state of the pipe, form a run the specification allows (\<open>pumpRun\<close>),
  with the outcome the pump returns. In particular every read returns and every write
  carries at most 16 KiB; every write that succeeded is directly followed by a flush;
  every read directly follows a check of the cancellation signal that found it unset;
  after a check that finds the signal set the pump makes no call at all, and that is the
  one way it ends as cancelled; the pump ends as completed exactly when a read reported
  end of file and no write failed; and after a read that reported end of file or an
  error no read follows, after a failed write neither a read nor a write.

  The reads are those of a buffer of exactly 16 KiB: their results are the first of
  the results such a buffer gives on the pipe. The bytes of the writes, in order, are
  the bytes the pump took from the pipe, and the bytes of the writes that succeeded are
  what the pump added to the body of the response. Each check reports the signal as it
  was when the check was made, and a write fails exactly when the client had gone by
  then. A signal that becomes set between two checks is found at the next check: at
  most one write is made after the signal was set.\<close>

theorem pump_conforms:
  "\<exists>evs. trace (snd (pump e p i w)) = trace w @ evs
     \<and> pumpRun e p i (fst (pump e p i w)) evs
     \<and> list_all boundedChunk evs
     \<and> flushedWrites evs
     \<and> checkedReads EvFlush evs
     \<and> stopsWhenDone evs
     \<and> noRetry evs
     \<and> (fst (pump e p i w) = Completed) = (list_ex cleanEOF evs \<and> \<not> list_ex failedWrite evs)
     \<and> (fst (pump e p i w) = Cancelled) = (last evs = EvCtxDone True)
     \<and> take (length (reads evs)) (expectedReads (16 * 1024) (pipe w)) = reads evs
     \<and> concat (map live (pipe w)) = offered evs @ concat (map live (pipe (snd (pump e p i w))))
     \<and> body (rw (snd (pump e p i w))) = body (rw w) @ delivered evs
     \<and> onClock e i evs
     \<and> lateWrites e i evs \<le> 1"
proof -
  from pump_carries [of e p i w] obtain evs where
    evs: "trace (snd (pump e p i w)) = trace w @ evs" "pumpRun e p i (fst (pump e p i w)) evs"
      "carries e i w (snd (pump e p i w)) evs"
    by blast
  from evs(3) have "take (length (reads evs)) (expectedReads (16 * 1024) (pipe w)) = reads evs
     \<and> concat (map live (pipe w)) = offered evs @ concat (map live (pipe (snd (pump e p i w))))
     \<and> body (rw (snd (pump e p i w))) = body (rw w) @ delivered evs
     \<and> onClock e i evs
     \<and> lateWrites e i evs \<le> 1"
    by (simp add: carries_def split: if_splits)
  with pumpRun_shape [OF evs(2), of EvFlush] evs(1,2) show ?thesis
    by blast
qed

theorem pump_conforms_witness:
  "trace (snd (pump exEnv ''/out/480/movie.mp4'' 0 exStarted)) =
     [EvCtxDone False, EvRead 2 None, EvWrite ''ab'' True, EvFlush,
      EvCtxDone False, EvRead 2 None, EvWrite ''cd'' True, EvFlush,
      EvCtxDone False, EvRead 0 (Some EOF)]
   \<and> pumpRun exEnv ''/out/480/movie.mp4'' 0 Completed
       [EvCtxDone False, EvRead 2 None, EvWrite ''ab'' True, EvFlush,
        EvCtxDone False, EvRead 2 None, EvWrite ''cd'' True, EvFlush,
        EvCtxDone False, EvRead 0 (Some EOF)]
   \<and> body (rw (snd (pump exEnv ''/out/480/movie.mp4'' 0 exStarted))) = ''abcd''"
proof -
  have t: "trace (snd (pump exEnv ''/out/480/movie.mp4'' 0 exStarted)) =
     [EvCtxDone False, EvRead 2 None, EvWrite ''ab'' True, EvFlush,
      EvCtxDone False, EvRead 2 None, EvWrite ''cd'' True, EvFlush,
      EvCtxDone False, EvRead 0 (Some EOF)]"
    by (simp add: pump.simps exStarted_def exEnv_def freshWorld_def cancelled_def
          writeFails_def reader_Read_def Let_def Write_def Flush_def emit_def appendFile_def)
  have o: "fst (pump exEnv ''/out/480/movie.mp4'' 0 exStarted) = Completed"
    by (simp add: pump.simps exStarted_def exEnv_def freshWorld_def cancelled_def
          writeFails_def reader_Read_def Let_def Write_def Flush_def emit_def appendFile_def)
  have e: "trace exStarted = []" "body (rw exStarted) = []"
    by (simp_all add: exStarted_def freshWorld_def freshResponse_def)
  from pump_conforms [of exEnv "''/out/480/movie.mp4''" 0 exStarted] obtain evs where
    "trace (snd (pump exEnv ''/out/480/movie.mp4'' 0 exStarted)) = trace exStarted @ evs"
    "pumpRun exEnv ''/out/480/movie.mp4'' 0
       (fst (pump exEnv ''/out/480/movie.mp4'' 0 exStarted)) evs"
    "body (rw (snd (pump exEnv ''/out/480/movie.mp4'' 0 exStarted)))
       = body (rw exStarted) @ delivered evs"
    by blast
  with t o e show ?thesis by simp
qed

section \<open>The encoder process is killed and reaped\<close>

text \<open>Claim C9. Whatever the request, the environment and the course of the stream:
  when the handler has started an encoder process, the handler's last calls are
  \<^verbatim>\<open>reader.Close\<close>, \<^verbatim>\<open>Kill\<close>, \<^verbatim>\<open>Wait\<close> and the close of the source file, and the
  process is reaped when the handler returns; when it has not started one, there is no
  process. This covers the completed stream, the failed read, the failed write and the
  cancellation, which differ only in the calls before.\<close>

theorem encoder_killed_and_reaped:
  "if list_ex started (trace (handleTranscodeRequest e config reqPath (freshWorld f)))
   then proc (handleTranscodeRequest e config reqPath (freshWorld f)) = Reaped
      \<and> (\<exists>pre name. trace (handleTranscodeRequest e config reqPath (freshWorld f))
            = pre @ [EvReaderClose, EvKill, EvWait, EvClose name])
   else proc (handleTranscodeRequest e config reqPath (freshWorld f)) = NotStarted"
proof (cases "\<exists>width filename. validated config reqPath width filename")
  case False
  then obtain c m where
    "handleTranscodeRequest e config reqPath (freshWorld f) = httpError c m (freshWorld f)"
    using handler_not_validated [of config reqPath e "freshWorld f"] by blast
  then show ?thesis by (simp add: freshWorld_def)
next
  case True
  then obtain width filename where v: "validated config reqPath width filename" by blast
  let ?orig = "sourcePath config filename"
  obtain oErr w0 where op: "os_Open e ?orig (freshWorld f) = (oErr, w0)"
    by (cases "os_Open e ?orig (freshWorld f)")
  note w0 = os_Open_frame(1,2) [OF op]
  have fresh: "trace (freshWorld f) = []" "proc (freshWorld f) = NotStarted"
    by (simp_all add: freshWorld_def)
  show ?thesis
  proof (cases oErr)
    case (Some err)
    with handler_validated [OF v, of e "freshWorld f"] op w0 fresh show ?thesis
      by (cases "err = NotExist") simp_all
  next
    case None
    with handler_validated [OF v, of e "freshWorld f"] op
    have h: "handleTranscodeRequest e config reqPath (freshWorld f)
        = os_Close ?orig (serveOpened e config width filename ?orig w0)"
      by simp
    from w0 fresh have "proc w0 = NotStarted" by simp
    from serveOpened_reaps [OF this, of e config width filename ?orig] obtain evs where
      evs: "trace (serveOpened e config width filename ?orig w0) = trace w0 @ evs"
        "if list_ex started evs
         then proc (serveOpened e config width filename ?orig w0) = Reaped
            \<and> (\<exists>pre. evs = pre @ [EvReaderClose, EvKill, EvWait])
         else proc (serveOpened e config width filename ?orig w0) = NotStarted"
      by blast
    show ?thesis
    proof (cases "list_ex started evs")
      case True
      with evs(2) obtain pre where pre: "evs = pre @ [EvReaderClose, EvKill, EvWait]"
        and r: "proc (serveOpened e config width filename ?orig w0) = Reaped"
        by auto
      have "trace (handleTranscodeRequest e config reqPath (freshWorld f))
          = (EvOpen ?orig # pre) @ [EvReaderClose, EvKill, EvWait, EvClose ?orig]"
        unfolding h using evs(1) pre w0 fresh by simp
      moreover have "list_ex started (trace (handleTranscodeRequest e config reqPath (freshWorld f)))"
        unfolding h using evs(1) True by simp
      ultimately show ?thesis using r h by (simp only: if_True defer_frame) blast
    next
      case False
      with evs w0 fresh show ?thesis unfolding h by simp
    qed
  qed
qed


theorem encoder_killed_and_reaped_witness:
  "list_ex started
     (trace (handleTranscodeRequest exCancelled exConfig ''/480p/movie.mp4'' (freshWorld exFs)))
   \<and> proc (handleTranscodeRequest exCancelled exConfig ''/480p/movie.mp4'' (freshWorld exFs))
       = Reaped"
proof -
  have s: "list_ex started
     (trace (handleTranscodeRequest exCancelled exConfig ''/480p/movie.mp4'' (freshWorld exFs)))"
    by (simp add: run_defs exCancelled_def)
  from encoder_killed_and_reaped [of exCancelled exConfig "''/480p/movie.mp4''" exFs] s
  show ?thesis by simp
qed

section \<open>Serving a generated artifact again\<close>

text \<open>Claim C7 as stated fails in its middle part: the second request does not return
  the bytes the first one returned. The first request for \<^verbatim>\<open>/480p/movie.mp4\<close> streams
  what the encoder writes to its standard output (\<^verbatim>\<open>abcd\<close>); the second one is served
  the file the encoder wrote at the canonical path (\<^verbatim>\<open>ABCD\<close>), which is the other of
  the two outputs on the encoder's command line.\<close>

theorem streamed_and_cached_bytes_differ_counterexample:
  "let first = handleTranscodeRequest exEnv exConfig ''/480p/movie.mp4'' (freshWorld exFs);
       second = handleTranscodeRequest exEnv exConfig ''/480p/movie.mp4''
                  (freshWorld (fs first))
   in validated exConfig ''/480p/movie.mp4'' 480 ''movie.mp4''
    \<and> generated first
    \<and> status (rw first) = 200
    \<and> body (rw first) = ''abcd''
    \<and> served (rw second) = Some (''/out/480/movie.mp4'', Some (Regular ''ABCD''))
    \<and> \<not> list_ex started (trace second)"
  by (simp add: run_defs ex_defs)

text \<open>Claim C7, as amended. When a first request has generated its artifact, the
  response it streamed is the encoder's standard output up to its end, and the
  canonical path of its key holds the file the encoder wrote meanwhile. The same request
  made again on the file system the first one left is answered from that file: the
  static file server is given the canonical path and finds there the regular file with
  exactly those bytes. The second request starts no encoder process, its only calls
  are the open of the source, \<^verbatim>\<open>MkdirAll\<close>, \<^verbatim>\<open>Stat\<close>, \<^verbatim>\<open>ServeFile\<close> and the
  close, and it leaves the file system as it found it, so that every further request is
  answered with the same file.\<close>

theorem second_request_served_from_cache:
  assumes "validated config reqPath width filename"
    and "generated (handleTranscodeRequest e config reqPath (freshWorld f))"
  shows "fs (handleTranscodeRequest e config reqPath (freshWorld f))
            (canonicalPath config width filename)
           = Some (Regular (concat (map disk (emitted (script e)))))
       \<and> body (rw (handleTranscodeRequest e config reqPath (freshWorld f)))
           = concat (map live (emitted (script e)))
       \<and> served (rw (handleTranscodeRequest e config reqPath
            (freshWorld (fs (handleTranscodeRequest e config reqPath (freshWorld f))))))
           = Some (canonicalPath config width filename,
                   Some (Regular (concat (map disk (emitted (script e))))))
       \<and> \<not> list_ex started (trace (handleTranscodeRequest e config reqPath
            (freshWorld (fs (handleTranscodeRequest e config reqPath (freshWorld f))))))
       \<and> trace (handleTranscodeRequest e config reqPath
            (freshWorld (fs (handleTranscodeRequest e config reqPath (freshWorld f)))))
           = [EvOpen (sourcePath config filename), EvMkdirAll (canonicalDir config width),
              EvStat (canonicalPath config width filename),
              EvServeFile (canonicalPath config width filename),
              EvClose (sourcePath config filename)]
       \<and> proc (handleTranscodeRequest e config reqPath
            (freshWorld (fs (handleTranscodeRequest e config reqPath (freshWorld f)))))
           = NotStarted
       \<and> fs (handleTranscodeRequest e config reqPath
            (freshWorld (fs (handleTranscodeRequest e config reqPath (freshWorld f)))))
           = fs (handleTranscodeRequest e config reqPath (freshWorld f))"
proof -
  let ?g = "fs (handleTranscodeRequest e config reqPath (freshWorld f))"
  note go = generation_only [OF assms]
  from go have c: "?g (canonicalPath config width filename)
      = Some (Regular (concat (map disk (emitted (script e)))))"
    and b: "body (rw (handleTranscodeRequest e config reqPath (freshWorld f)))
      = concat (map live (emitted (script e)))"
    by blast+
  from go have d: "?g (canonicalDir config width) = Some Directory" by blast
  then have idem: "?g(canonicalDir config width \<mapsto> Directory) = ?g"
    by (simp add: fun_upd_idem)
  have "handleTranscodeRequest e config reqPath (freshWorld ?g) =
     os_Close (sourcePath config filename)
       (ServeFile (canonicalPath config width filename)
          (emit (EvStat (canonicalPath config width filename))
             (emit (EvMkdirAll (canonicalDir config width))
                ((emit (EvOpen (sourcePath config filename)) (freshWorld ?g))
                   \<lparr>fs := ?g\<rparr>))))"
    using handler_cache_hit [OF assms(1), of e ?g] go c d by (simp add: idem)
  from cache_hit_result [OF this] c b show ?thesis by simp
qed

theorem second_request_served_from_cache_witness:
  "validated exConfig ''/480p/movie.mp4'' 480 ''movie.mp4''
   \<and> generated (handleTranscodeRequest exEnv exConfig ''/480p/movie.mp4'' (freshWorld exFs))
   \<and> fs (handleTranscodeRequest exEnv exConfig ''/480p/movie.mp4'' (freshWorld exFs))
        ''/out/480/movie.mp4'' = Some (Regular ''ABCD'')
   \<and> body (rw (handleTranscodeRequest exEnv exConfig ''/480p/movie.mp4'' (freshWorld exFs)))
       = ''abcd''
   \<and> served (rw (handleTranscodeRequest exEnv exConfig ''/480p/movie.mp4''
        (freshWorld (fs (handleTranscodeRequest exEnv exConfig ''/480p/movie.mp4''
           (freshWorld exFs))))))
       = Some (''/out/480/movie.mp4'', Some (Regular ''ABCD''))"
proof -
  have g: "generated (handleTranscodeRequest exEnv exConfig ''/480p/movie.mp4'' (freshWorld exFs))"
    by (simp add: run_defs ex_defs)
  have s: "concat (map disk (emitted (script exEnv))) = ''ABCD''"
    "concat (map live (emitted (script exEnv))) = ''abcd''"
    by (simp_all add: exEnv_def)
  from second_request_served_from_cache [OF ex_validated g] s ex_validated g show ?thesis
    by (simp add: ex_paths)
qed

section \<open>The order of the file-system calls\<close>

text \<open>Claim C10 as stated fails in its middle part: a request that is a pure cache hit
  does not change the file system. With the artifact of \<^verbatim>\<open>/480p/movie.mp4\<close> in the cache
  the handler does call \<^verbatim>\<open>MkdirAll\<close> before the lookup, but the directory is there and
  the call changes nothing: the file system after the request is the one before it.\<close>

theorem cache_hit_changes_nothing_counterexample:
  "let w = handleTranscodeRequest exEnv exConfig ''/480p/movie.mp4'' (freshWorld exCached)
   in validated exConfig ''/480p/movie.mp4'' 480 ''movie.mp4''
    \<and> exCached (sourcePath exConfig ''movie.mp4'') = Some (Regular ''source'')
    \<and> exCached (canonicalPath exConfig 480 ''movie.mp4'') = Some (Regular ''ABCD'')
    \<and> served (rw w) = Some (''/out/480/movie.mp4'', Some (Regular ''ABCD''))
    \<and> trace w = [EvOpen ''/in/movie.mp4'', EvMkdirAll ''/out/480'',
                  EvStat ''/out/480/movie.mp4'', EvServeFile ''/out/480/movie.mp4'',
                  EvClose ''/in/movie.mp4'']
    \<and> fs w = exCached"
  by (simp add: run_defs ex_defs)

text \<open>Claim C10, as amended. For a request with a valid width, a safe filename and a
  source file that opens, the handler calls \<^verbatim>\<open>MkdirAll\<close> on the output directory of the
  width right after opening the source and before the \<^verbatim>\<open>Stat\<close> of the canonical path.
  When \<^verbatim>\<open>MkdirAll\<close> fails the answer is 500 with the body
  \<^verbatim>\<open>Could not create output directory\<close>, whatever is stored at the canonical path,
  no lookup takes place and the file system is unchanged. When it succeeds the lookup
  is the third call and the directory exists when the handler returns. When the lookup
  then finds an entry, that entry is served and the file system the request leaves is
  the one it found with the output directory added: the request has changed the file
  system exactly when the directory was missing, and a cache hit that finds the
  directory in place changes nothing.\<close>

theorem mkdir_before_lookup:
  assumes "validated config reqPath width filename"
    and "\<not> openFault e (sourcePath config filename)"
    and "f (sourcePath config filename) \<noteq> None"
  shows "if mkdirFault e (canonicalDir config width)
            \<or> (\<exists>c. f (canonicalDir config width) = Some (Regular c))
         then status (rw (handleTranscodeRequest e config reqPath (freshWorld f))) = 500
            \<and> body (rw (handleTranscodeRequest e config reqPath (freshWorld f)))
                = ''Could not create output directory''
            \<and> served (rw (handleTranscodeRequest e config reqPath (freshWorld f))) = None
            \<and> fs (handleTranscodeRequest e config reqPath (freshWorld f)) = f
            \<and> trace (handleTranscodeRequest e config reqPath (freshWorld f))
                = [EvOpen (sourcePath config filename),
                   EvMkdirAll (canonicalDir config width),
                   EvLog ''Error creating output directory'',
                   EvSetHeader ''Content-Type'' ''text/plain; charset=utf-8'',
                   EvWriteHeader 500,
                   EvWrite ''Could not create output directory'' True,
                   EvClose (sourcePath config filename)]
         else take 3 (trace (handleTranscodeRequest e config reqPath (freshWorld f)))
                = [EvOpen (sourcePath config filename),
                   EvMkdirAll (canonicalDir config width),
                   EvStat (canonicalPath config width filename)]
            \<and> fs (handleTranscodeRequest e config reqPath (freshWorld f))
                 (canonicalDir config width) = Some Directory
            \<and> (\<not> statFault e (canonicalPath config width filename)
               \<and> (f(canonicalDir config width \<mapsto> Directory))
                    (canonicalPath config width filename) \<noteq> None
               \<longrightarrow> served (rw (handleTranscodeRequest e config reqPath (freshWorld f)))
                     = Some (canonicalPath config width filename,
                             (f(canonicalDir config width \<mapsto> Directory))
                               (canonicalPath config width filename))
                 \<and> trace (handleTranscodeRequest e config reqPath (freshWorld f))
                     = [EvOpen (sourcePath config filename),
                        EvMkdirAll (canonicalDir config width),
                        EvStat (canonicalPath config width filename),
                        EvServeFile (canonicalPath config width filename),
                        EvClose (sourcePath config filename)]
                 \<and> fs (handleTranscodeRequest e config reqPath (freshWorld f))
                     = f(canonicalDir config width \<mapsto> Directory)
                 \<and> (fs (handleTranscodeRequest e config reqPath (freshWorld f)) = f)
                     = (f (canonicalDir config width) = Some Directory))"
proof -
  let ?src = "sourcePath config filename"
  let ?dir = "canonicalDir config width"
  let ?p = "canonicalPath config width filename"
  let ?w0 = "emit (EvOpen ?src) (freshWorld f)"
  have op: "os_Open e ?src (freshWorld f) = (None, ?w0)"
    using assms(2,3) by (simp add: os_Open_def)
  have h: "handleTranscodeRequest e config reqPath (freshWorld f)
      = os_Close ?src (serveOpened e config width filename ?src ?w0)"
    using handler_validated [OF assms(1), of e "freshWorld f"] op by simp
  obtain mkErr w1 where mk: "os_MkdirAll e ?dir ?w0 = (mkErr, w1)"
    by (cases "os_MkdirAll e ?dir ?w0")
  note w1 = os_MkdirAll_frame [OF mk]
  obtain stErr w2 where st: "os_Stat e ?p w1 = (stErr, w2)" by (cases "os_Stat e ?p w1")
  note w2 = os_Stat_frame [OF st]
  note un = serveOpened_unfold [OF mk st, of ?src]
  have mkErr: "mkErr = (mkdirFault e ?dir \<or> (\<exists>c. f ?dir = Some (Regular c)))"
    using w1(6) by simp
  show ?thesis
  proof (cases mkErr)
    case True
    have nw: "\<not> wroteHeader (rw (emit (EvLog ''Error creating output directory'') w1))"
      using w1(3) by simp
    from True un h w1 httpError_fresh [OF nw] mkErr show ?thesis
      by simp
  next
    case False
    have pre: "\<exists>rest. trace (serveOpened e config width filename ?src ?w0)
        = [EvOpen ?src, EvMkdirAll ?dir, EvStat ?p] @ rest"
    proof -
      let ?w4 = "cmd_Start e (ffmpegArgs ?src width ?p) (emit EvStdoutPipe (streamHeaders w2))"
      from streamStarted_frame(2) [of e ?p ?w4] obtain evs where
        "trace (streamStarted e ?p ?w4) = trace ?w4 @ evs" by blast
      then show ?thesis
        using un False w1(1) w2(1)
        by (auto simp: Process_Kill_def)
    qed
    then obtain rest where "trace (handleTranscodeRequest e config reqPath (freshWorld f))
        = [EvOpen ?src, EvMkdirAll ?dir, EvStat ?p] @ rest @ [EvClose ?src]"
      unfolding h by auto
    then have 1: "take 3 (trace (handleTranscodeRequest e config reqPath (freshWorld f)))
        = [EvOpen ?src, EvMkdirAll ?dir, EvStat ?p]"
      by simp
    have 2: "fs (handleTranscodeRequest e config reqPath (freshWorld f)) ?dir = Some Directory"
      unfolding h using serveOpened_dir [of e config width ?w0 filename ?src] mk False by simp
    have 3: "served (rw (handleTranscodeRequest e config reqPath (freshWorld f)))
                     = Some (?p, (f(?dir \<mapsto> Directory)) ?p)
           \<and> trace (handleTranscodeRequest e config reqPath (freshWorld f))
                     = [EvOpen ?src, EvMkdirAll ?dir, EvStat ?p, EvServeFile ?p, EvClose ?src]
           \<and> fs (handleTranscodeRequest e config reqPath (freshWorld f)) = f(?dir \<mapsto> Directory)
           \<and> (fs (handleTranscodeRequest e config reqPath (freshWorld f)) = f)
               = (f ?dir = Some Directory)"
      if hit: "\<not> statFault e ?p" "(f(?dir \<mapsto> Directory)) ?p \<noteq> None"
    proof -
      from False mkErr have nf: "\<not> mkdirFault e ?dir" "\<And>c. f ?dir \<noteq> Some (Regular c)"
        by auto
      note ch = cache_hit_result [OF handler_cache_hit [OF assms(1,2,3) nf hit]]
      have "(f(?dir \<mapsto> Directory) = f) = (f ?dir = Some Directory)"
        by (metis fun_upd_idem fun_upd_same)
      with ch show ?thesis by simp
    qed
    from False mkErr
    have nc: "(mkdirFault e ?dir \<or> (\<exists>c. f ?dir = Some (Regular c))) = False" by simp
    show ?thesis unfolding nc if_False using 1 2 3 by blast
  qed
qed

theorem mkdir_before_lookup_witness:
  "validated exConfig ''/480p/movie.mp4'' 480 ''movie.mp4''
   \<and> \<not> openFault exNoMkdir (sourcePath exConfig ''movie.mp4'')
   \<and> \<not> openFault exEnv (sourcePath exConfig ''movie.mp4'')
   \<and> exCached (sourcePath exConfig ''movie.mp4'') \<noteq> None
   \<and> exCached (canonicalPath exConfig 480 ''movie.mp4'') = Some (Regular ''ABCD'')
   \<and> exCached (canonicalDir exConfig 480) = Some Directory
   \<and> mkdirFault exNoMkdir (canonicalDir exConfig 480)
   \<and> status (rw (handleTranscodeRequest exNoMkdir exConfig ''/480p/movie.mp4''
        (freshWorld exCached))) = 500
   \<and> served (rw (handleTranscodeRequest exNoMkdir exConfig ''/480p/movie.mp4''
        (freshWorld exCached))) = None
   \<and> \<not> mkdirFault exEnv (canonicalDir exConfig 480)
   \<and> \<not> statFault exEnv (canonicalPath exConfig 480 ''movie.mp4'')
   \<and> served (rw (handleTranscodeRequest exEnv exConfig ''/480p/movie.mp4''
        (freshWorld exCached))) = Some (''/out/480/movie.mp4'', Some (Regular ''ABCD''))
   \<and> fs (handleTranscodeRequest exEnv exConfig ''/480p/movie.mp4'' (freshWorld exCached))
       = exCached"
proof -
  have a: "\<not> openFault exNoMkdir (sourcePath exConfig ''movie.mp4'')"
    "\<not> openFault exEnv (sourcePath exConfig ''movie.mp4'')"
    by (simp_all add: exNoMkdir_def exEnv_def)
  have b: "exCached (sourcePath exConfig ''movie.mp4'') \<noteq> None"
    by (simp add: ex_paths exCached_def exFs_def)
  have c: "exCached (canonicalPath exConfig 480 ''movie.mp4'') = Some (Regular ''ABCD'')"
    "exCached (canonicalDir exConfig 480) = Some Directory"
    by (simp_all add: ex_paths exCached_def)
  have d: "mkdirFault exNoMkdir (canonicalDir exConfig 480)"
    "\<not> mkdirFault exEnv (canonicalDir exConfig 480)"
    "\<not> statFault exEnv (canonicalPath exConfig 480 ''movie.mp4'')"
    by (simp_all add: exNoMkdir_def exEnv_def)
  from mkdir_before_lookup [where e = exNoMkdir and f = exCached, OF ex_validated a(1) b] d(1)
  have 1: "status (rw (handleTranscodeRequest exNoMkdir exConfig ''/480p/movie.mp4''
        (freshWorld exCached))) = 500
     \<and> served (rw (handleTranscodeRequest exNoMkdir exConfig ''/480p/movie.mp4''
        (freshWorld exCached))) = None"
    by simp
  from mkdir_before_lookup [where e = exEnv and f = exCached, OF ex_validated a(2) b] c d(2,3)
  have 2: "served (rw (handleTranscodeRequest exEnv exConfig ''/480p/movie.mp4''
        (freshWorld exCached))) = Some (''/out/480/movie.mp4'', Some (Regular ''ABCD''))
     \<and> fs (handleTranscodeRequest exEnv exConfig ''/480p/movie.mp4'' (freshWorld exCached))
       = exCached"
    by (auto simp: ex_paths)
  from 1 2 ex_validated a b c d show ?thesis by simp
qed

text \<open>Claim C5 as stated fails: with the finished artifact at the canonical path and the
  source video gone, the valid request \<^verbatim>\<open>/480p/movie.mp4\<close> is answered 404 after the
  single call that tries to open the source; nothing is served from the cache.\<close>

theorem cache_hit_needs_source_counterexample:
  "let w = handleTranscodeRequest exEnv exConfig ''/480p/movie.mp4'' (freshWorld exOrphan)
   in validated exConfig ''/480p/movie.mp4'' 480 ''movie.mp4''
    \<and> exOrphan (canonicalPath exConfig 480 ''movie.mp4'') = Some (Regular ''ABCD'')
    \<and> status (rw w) = 404
    \<and> body (rw w) = ''File Not Found''
    \<and> served (rw w) = None
    \<and> trace w = [EvOpen ''/in/movie.mp4'',
                  EvSetHeader ''Content-Type'' ''text/plain; charset=utf-8'',
                  EvWriteHeader 404, EvWrite ''File Not Found'' True]"
  by (simp add: run_defs ex_defs)

text \<open>Claim C5, as amended. For a validated request the source file is opened first.
  When the open fails for another reason than a missing file the answer is 500, and
  when the file does not exist it is 404; in both cases this is the only file-system
  call: the output directory is not created and the cache is not looked up, whatever
  is stored at the canonical path. When the source opens, the output directory exists
  and the lookup finds an entry at the canonical path, that entry is handed to the
  static file server, no encoder is started and the file system is unchanged.\<close>

theorem source_opened_before_lookup:
  assumes "validated config reqPath width filename"
  shows "if openFault e (sourcePath config filename)
         then status (rw (handleTranscodeRequest e config reqPath (freshWorld f))) = 500
            \<and> body (rw (handleTranscodeRequest e config reqPath (freshWorld f)))
                = ''Internal Server Error''
            \<and> served (rw (handleTranscodeRequest e config reqPath (freshWorld f))) = None
            \<and> fs (handleTranscodeRequest e config reqPath (freshWorld f)) = f
            \<and> trace (handleTranscodeRequest e config reqPath (freshWorld f))
                = [EvOpen (sourcePath config filename),
                   EvLog ''Error opening original file'',
                   EvSetHeader ''Content-Type'' ''text/plain; charset=utf-8'',
                   EvWriteHeader 500, EvWrite ''Internal Server Error'' True]
         else if f (sourcePath config filename) = None
         then status (rw (handleTranscodeRequest e config reqPath (freshWorld f))) = 404
            \<and> body (rw (handleTranscodeRequest e config reqPath (freshWorld f))) = ''File Not Found''
            \<and> served (rw (handleTranscodeRequest e config reqPath (freshWorld f))) = None
            \<and> fs (handleTranscodeRequest e config reqPath (freshWorld f)) = f
            \<and> trace (handleTranscodeRequest e config reqPath (freshWorld f))
                = [EvOpen (sourcePath config filename),
                   EvSetHeader ''Content-Type'' ''text/plain; charset=utf-8'',
                   EvWriteHeader 404, EvWrite ''File Not Found'' True]
         else (\<not> mkdirFault e (canonicalDir config width)
               \<and> f (canonicalDir config width) = Some Directory
               \<and> \<not> statFault e (canonicalPath config width filename)
               \<and> f (canonicalPath config width filename) \<noteq> None
               \<longrightarrow> served (rw (handleTranscodeRequest e config reqPath (freshWorld f)))
                     = Some (canonicalPath config width filename,
                             f (canonicalPath config width filename))
                 \<and> fs (handleTranscodeRequest e config reqPath (freshWorld f)) = f
                 \<and> proc (handleTranscodeRequest e config reqPath (freshWorld f)) = NotStarted
                 \<and> trace (handleTranscodeRequest e config reqPath (freshWorld f))
                     = [EvOpen (sourcePath config filename),
                        EvMkdirAll (canonicalDir config width),
                        EvStat (canonicalPath config width filename),
                        EvServeFile (canonicalPath config width filename),
                        EvClose (sourcePath config filename)])"
proof (cases "openFault e (sourcePath config filename)")
  case True
  let ?src = "sourcePath config filename"
  have op: "os_Open e ?src (freshWorld f) = (Some OtherError, emit (EvOpen ?src) (freshWorld f))"
    using True by (simp add: os_Open_def)
  have nw: "\<not> wroteHeader (rw (emit (EvLog ''Error opening original file'')
      (emit (EvOpen ?src) (freshWorld f))))" by simp
  from handler_validated [OF assms(1), of e "freshWorld f"] op httpError_fresh [OF nw] True
  show ?thesis by simp
next
  case opens: False
  show ?thesis
  proof (cases "f (sourcePath config filename) = None")
    case True
    let ?src = "sourcePath config filename"
    have op: "os_Open e ?src (freshWorld f) = (Some NotExist, emit (EvOpen ?src) (freshWorld f))"
      using opens True by (simp add: os_Open_def)
    have nw: "\<not> wroteHeader (rw (emit (EvOpen ?src) (freshWorld f)))" by simp
    from handler_validated [OF assms(1), of e "freshWorld f"] op httpError_fresh [OF nw] True opens
    show ?thesis by simp
  next
    case False
    show ?thesis
    proof (cases "\<not> mkdirFault e (canonicalDir config width)
                 \<and> f (canonicalDir config width) = Some Directory
                 \<and> \<not> statFault e (canonicalPath config width filename)
                 \<and> f (canonicalPath config width filename) \<noteq> None")
      case True
      then have idem: "f(canonicalDir config width \<mapsto> Directory) = f"
        by (simp add: fun_upd_idem)
      from True have "\<And>c. f (canonicalDir config width) \<noteq> Some (Regular c)" by simp
      from handler_cache_hit [OF assms(1) opens False _ this] True
      have "handleTranscodeRequest e config reqPath (freshWorld f) =
         os_Close (sourcePath config filename)
           (ServeFile (canonicalPath config width filename)
              (emit (EvStat (canonicalPath config width filename))
                 (emit (EvMkdirAll (canonicalDir config width))
                    ((emit (EvOpen (sourcePath config filename)) (freshWorld f))
                       \<lparr>fs := f\<rparr>))))"
        by (simp add: idem)
      from cache_hit_result [OF this] False True opens show ?thesis by simp
    next
      case False
      with \<open>f (sourcePath config filename) \<noteq> None\<close> opens show ?thesis by auto
    qed
  qed
qed

theorem source_opened_before_lookup_witness:
  "validated exConfig ''/480p/movie.mp4'' 480 ''movie.mp4''
   \<and> openFault exUnreadable (sourcePath exConfig ''movie.mp4'')
   \<and> status (rw (handleTranscodeRequest exUnreadable exConfig ''/480p/movie.mp4''
        (freshWorld exCached))) = 500
   \<and> served (rw (handleTranscodeRequest exUnreadable exConfig ''/480p/movie.mp4''
        (freshWorld exCached))) = None
   \<and> \<not> openFault exEnv (sourcePath exConfig ''movie.mp4'')
   \<and> exOrphan (sourcePath exConfig ''movie.mp4'') = None
   \<and> status (rw (handleTranscodeRequest exEnv exConfig ''/480p/movie.mp4'' (freshWorld exOrphan)))
       = 404
   \<and> exCached (sourcePath exConfig ''movie.mp4'') \<noteq> None
   \<and> \<not> mkdirFault exEnv (canonicalDir exConfig 480)
   \<and> exCached (canonicalDir exConfig 480) = Some Directory
   \<and> \<not> statFault exEnv (canonicalPath exConfig 480 ''movie.mp4'')
   \<and> exCached (canonicalPath exConfig 480 ''movie.mp4'') \<noteq> None
   \<and> served (rw (handleTranscodeRequest exEnv exConfig ''/480p/movie.mp4'' (freshWorld exCached)))
       = Some (''/out/480/movie.mp4'', Some (Regular ''ABCD''))"
proof -
  have a: "\<not> openFault exEnv (sourcePath exConfig ''movie.mp4'')"
    by (simp add: exEnv_def)
  have u: "openFault exUnreadable (sourcePath exConfig ''movie.mp4'')"
    by (simp add: exUnreadable_def ex_paths)
  have b: "exOrphan (sourcePath exConfig ''movie.mp4'') = None"
    by (simp add: ex_paths exOrphan_def)
  have c: "exCached (sourcePath exConfig ''movie.mp4'') \<noteq> None"
    by (simp add: ex_paths exCached_def exFs_def)
  have d: "\<not> mkdirFault exEnv (canonicalDir exConfig 480)"
    "\<not> statFault exEnv (canonicalPath exConfig 480 ''movie.mp4'')"
    by (simp_all add: exEnv_def)
  have e: "exCached (canonicalDir exConfig 480) = Some Directory"
    "exCached (canonicalPath exConfig 480 ''movie.mp4'') = Some (Regular ''ABCD'')"
    by (simp_all add: ex_paths exCached_def)
  from source_opened_before_lookup [OF ex_validated, of exUnreadable exCached] u
  have 0: "status (rw (handleTranscodeRequest exUnreadable exConfig ''/480p/movie.mp4''
      (freshWorld exCached))) = 500
    \<and> served (rw (handleTranscodeRequest exUnreadable exConfig ''/480p/movie.mp4''
      (freshWorld exCached))) = None"
    by simp
  from source_opened_before_lookup [OF ex_validated, of exEnv exOrphan] a b
  have 1: "status (rw (handleTranscodeRequest exEnv exConfig ''/480p/movie.mp4''
      (freshWorld exOrphan))) = 404"
    by simp
  from source_opened_before_lookup [OF ex_validated, of exEnv exCached] a c d e
  have 2: "served (rw (handleTranscodeRequest exEnv exConfig ''/480p/movie.mp4''
      (freshWorld exCached))) = Some (''/out/480/movie.mp4'', Some (Regular ''ABCD''))"
    by (simp add: ex_paths)
  from ex_validated a u b c d e 0 1 2 show ?thesis by simp
qed

section \<open>Where the handler departs from the specification\<close>

text \<open>Claim C1 at a failing input. The output file on the encoder's command line is the
  canonical path itself; the handler has no temporary name and no rename. An
  uninterrupted request for \<^verbatim>\<open>/480p/movie.mp4\<close> leaves the artifact \<^verbatim>\<open>ABCD\<close> there.
  When the client goes away after the first chunk the canonical path holds the part
  \<^verbatim>\<open>AB\<close>, and the same request made again finds it with \<^verbatim>\<open>Stat\<close> and serves the
  partial file as a cache hit.\<close>

theorem partial_artifact_served_from_cache:
  "let complete = handleTranscodeRequest exEnv exConfig ''/480p/movie.mp4'' (freshWorld exFs);
       interrupted = handleTranscodeRequest exCancelled exConfig ''/480p/movie.mp4''
                       (freshWorld exFs);
       again = handleTranscodeRequest exEnv exConfig ''/480p/movie.mp4''
                 (freshWorld (fs interrupted))
   in encoderOutput (ffmpegArgs (sourcePath exConfig ''movie.mp4'') 480
          (canonicalPath exConfig 480 ''movie.mp4''))
        = canonicalPath exConfig 480 ''movie.mp4''
    \<and> canonicalPath exConfig 480 ''movie.mp4'' = ''/out/480/movie.mp4''
    \<and> fs complete ''/out/480/movie.mp4'' = Some (Regular ''ABCD'')
    \<and> fs interrupted ''/out/480/movie.mp4'' = Some (Regular ''AB'')
    \<and> served (rw again) = Some (''/out/480/movie.mp4'', Some (Regular ''AB''))
    \<and> trace again = [EvOpen ''/in/movie.mp4'', EvMkdirAll ''/out/480'',
                      EvStat ''/out/480/movie.mp4'', EvServeFile ''/out/480/movie.mp4'',
                      EvClose ''/in/movie.mp4'']"
  by (simp add: run_defs ex_defs)

text \<open>Claim C2 at a failing input. The client goes away after the first chunk of
  \<^verbatim>\<open>/480p/movie.mp4\<close>: the goroutine returns at its next check of \<^verbatim>\<open>ctx.Done()\<close>,
  the handler logs the cancellation, closes the reader, kills the encoder and waits
  for it. No call removes the cache file: the canonical path still holds the part
  the encoder had written.\<close>

theorem cancelled_request_leaves_partial_file:
  "let w = handleTranscodeRequest exCancelled exConfig ''/480p/movie.mp4'' (freshWorld exFs)
   in drop 8 (trace w)
        = [EvCtxDone False, EvRead 2 None, EvWrite ''ab'' True, EvFlush, EvCtxDone True,
           EvLog ''Client disconnected or request cancelled. Cleaning up...'',
           EvReaderClose, EvKill, EvWait, EvClose ''/in/movie.mp4'']
    \<and> proc w = Reaped
    \<and> fs w (canonicalPath exConfig 480 ''movie.mp4'') = Some (Regular ''AB'')"
  by (simp add: run_defs ex_defs)

text \<open>Claim C3 at a failing input. The filename \<^verbatim>\<open>..\<close> is its own normal form; it does
  not contain \<^verbatim>\<open>../\<close> and is not absolute, so the handler's check lets it pass. The
  handler then opens the parent of the input root, creates the output directory and
  hands the output root to the static file server, instead of answering 400 itself.
  When the parent of the input root cannot be opened the handler answers 500.\<close>

theorem dotdot_opens_parent_of_input_root:
  "let w = handleTranscodeRequest exEnv exConfig ''/480p/..'' (freshWorld exFs);
       d = handleTranscodeRequest exDenied exConfig ''/480p/..'' (freshWorld exFs)
   in FindStringSubmatch ''/480p/..'' = Some (''480'', ''..'')
    \<and> Clean ''..'' = ''..''
    \<and> sourcePath exConfig (Clean ''..'') = ''/''
    \<and> trace w = [EvOpen ''/'', EvMkdirAll ''/out/480'', EvStat ''/out'', EvServeFile ''/out'',
                  EvClose ''/'']
    \<and> served (rw w) = Some (''/out'', Some Directory)
    \<and> status (rw d) = 500
    \<and> body (rw d) = ''Internal Server Error''"
  by (simp add: run_defs ex_defs)

text \<open>Claim C4 at a failing input. When the encoder cannot be started the handler has
  already sent the header of a streamed response: the call \<^verbatim>\<open>WriteHeader(500)\<close> of
  \<^verbatim>\<open>httpError\<close> comes second and is ignored, so the client receives status 200 with
  content type \<^verbatim>\<open>video/mp4\<close> and the error text as body. No process exists and no
  cache file was created.\<close>

theorem spawn_failure_answered_200:
  "let w = handleTranscodeRequest exNoEncoder exConfig ''/480p/movie.mp4'' (freshWorld exFs)
   in status (rw w) = 200
    \<and> sentHeader (rw w) ''Content-Type'' = Some ''video/mp4''
    \<and> body (rw w) = ''Failed to start transcoding''
    \<and> trace w
        = [EvOpen ''/in/movie.mp4'', EvMkdirAll ''/out/480'', EvStat ''/out/480/movie.mp4'',
           EvSetHeader ''Content-Type'' ''video/mp4'',
           EvSetHeader ''Transfer-Encoding'' ''chunked'', EvWriteHeader 200, EvStdoutPipe,
           EvStart (ffmpegArgs ''/in/movie.mp4'' 480 ''/out/480/movie.mp4'') False,
           EvLog ''Error starting transcoding'',
           EvSetHeader ''Content-Type'' ''text/plain; charset=utf-8'', EvWriteHeader 500,
           EvWrite ''Failed to start transcoding'' True, EvClose ''/in/movie.mp4'']
    \<and> proc w = NotStarted
    \<and> fs w ''/out/480/movie.mp4'' = None"
  by (simp add: run_defs ex_defs)

end
